theory Spec2Isabelle
  imports Main "HOL-Library.AList" "HOL-Library.Word"
begin

unbundle bit_operations_syntax

section \<open>Data model\<close>

text \<open>
  The extension's \<^verbatim>\<open>App\<close> class (src/src/app.ts) drives one \<^verbatim>\<open>Collection\<close> per account.
  The classes \<^verbatim>\<open>Collection\<close>, \<^verbatim>\<open>Abstract\<close>, \<^verbatim>\<open>Summary\<close>, \<^verbatim>\<open>Account\<close>, \<^verbatim>\<open>Feed\<close>,
  \<^verbatim>\<open>Article\<close> and \<^verbatim>\<open>Item\<close> are imported by app.ts from modules whose code is not
  under src/; their data is modelled from section 3 of the specification and from
  the fields app.ts reads.  Account keys, feed URLs and article ids are only ever
  compared for equality and are plain strings.
\<close>

datatype error = TypeError | NotFound | StorageError

text \<open>
  Modelled from the spec: the \<^verbatim>\<open>Abstract\<close> record of module \<^verbatim>\<open>./content\<close> (id, title,
  published date, source feed URL, link, read flag, favorite flag).  app.ts reads
  \<^verbatim>\<open>id\<close>, \<^verbatim>\<open>title\<close>, \<^verbatim>\<open>link\<close> and writes \<^verbatim>\<open>read\<close>.  Dates are milliseconds.
\<close>

record Abstract =
  id' :: string
  title :: string
  published :: int
  source_feed :: string
  link :: "string option"
  read :: bool
  favorite :: bool

text \<open>
  Modelled from the spec: the per-feed \<^verbatim>\<open>Summary\<close> (feed URL, title, site link, ordered
  catalog of article ids, last-fetch validator, folder path).
\<close>

record Summary =
  url :: string
  feed_title :: string
  site_link :: string
  catalog :: "string list"
  validator :: "string option"
  folder_path :: "string list"

text \<open>
  Modelled from the spec: the state of one \<^verbatim>\<open>Collection\<close> (module \<^verbatim>\<open>./collection\<close>).
  \<open>summaries\<close> and \<open>abstracts\<close> are the in-memory catalog, \<open>favorites\<close> the FavoritesList,
  \<open>pending\<close> the DirtyTracker's set of mutated Abstract ids, \<open>stored\<close> the ContentStore's
  persisted copy of the Abstracts and \<open>contents\<close> its article bodies.  The FeedTree
  (folders) and the remote session are not represented: no operation below reads them.
\<close>

record Collection =
  summaries :: "(string \<times> Summary) list"
  abstracts :: "string \<rightharpoonup> Abstract"
  favorites :: "string list"
  pending :: "string set"
  stored :: "string \<rightharpoonup> Abstract"
  contents :: "string \<rightharpoonup> string"

text \<open>Tree items handed to the command handlers; only the fields app.ts reads.\<close>

record Account =
  key :: string

record Feed =
  feed :: string
  summary :: Summary

record Article =
  abstract :: Abstract

record Item =
  item_abstract :: Abstract

text \<open>One entry of the \<^verbatim>\<open>rss.accounts\<close> configuration object.\<close>

datatype backend = Local | TTRSS | Inoreader

record AccountCfg =
  name :: string
  kind :: backend

text \<open>
  Calls that leave the \<^verbatim>\<open>App\<close> object are recorded in a trace, in call order: the
  refresh of a view, the progress notification, the update of the accounts
  configuration, and every method invoked on a Collection (with the key of the
  account it belongs to).
\<close>

datatype view = AccountList | FeedList | ArticleList | FavoritesList | StatusBar

datatype location = Window | Notification

datatype call =
    FetchAll bool
  | FetchOne string bool
  | Clean
  | UpdateAbstract string
  | Commit
  | AddToFavorites string
  | RemoveFromFavorites string
  | DelFeed string
  | CleanOldArticles string int
  | CleanAllOldArticles int

datatype event =
    Refresh view
  | WithProgress location
  | CfgUpdate "(string \<times> AccountCfg) list"
  | Call string call

text \<open>
  The fields of \<^verbatim>\<open>App\<close> (app.ts lines 22-36) and the \<^verbatim>\<open>rss.accounts\<close> configuration.
  \<open>collections\<close> is the object \<^verbatim>\<open>{ [key: string]: Collection }\<close>, held as an association
  list in the object's enumeration order; \<open>article_tree_view\<close> is the title of the
  article view once \<^verbatim>\<open>initViews\<close> has created it.  The association list holds the
  object's own properties; what the object inherits is \<open>Object_prototype\<close> below.
\<close>

record App =
  current_account :: "string option"
  current_feed :: "string option"
  updating :: bool
  collections :: "(string \<times> Collection) list"
  accounts :: "(string \<times> AccountCfg) list"
  article_tree_view :: "string option"
  trace :: "event list"

section \<open>Collection operations\<close>

text \<open>
  Modelled from the spec: \<^verbatim>\<open>Collection.getSummary\<close>, the Summary of a feed URL or absent.
\<close>

definition getSummary :: "Collection \<Rightarrow> string \<Rightarrow> Summary option" where
  "getSummary c u = map_of (summaries c) u"

text \<open>
  Modelled from the spec: \<^verbatim>\<open>Collection.getArticles(feedURL | '<unread>')\<close> (section 4.4).
  \<^verbatim>\<open><unread>\<close> aggregates the unread Abstracts of all feeds, ordered by descending
  publish date; a feed URL gives the Abstracts of that feed's catalog, in catalog order
  (none for an unknown feed).
\<close>

definition all_abstracts :: "Collection \<Rightarrow> Abstract list" where
  "all_abstracts c =
     List.map_filter (abstracts c) (concat (map (\<lambda>(u, sm). catalog sm) (summaries c)))"

definition getArticles :: "Collection \<Rightarrow> string \<Rightarrow> Abstract list" where
  "getArticles c f =
     (if f = ''<unread>''
      then sort_key (\<lambda>a. - published a) (filter (\<lambda>a. \<not> read a) (all_abstracts c))
      else (case getSummary c f of
              None \<Rightarrow> []
            | Some sm \<Rightarrow> List.map_filter (abstracts c) (catalog sm)))"

text \<open>
  Modelled from the spec: \<^verbatim>\<open>Collection.updateAbstract(id, newState)\<close> (section 4.4): applies
  the read/favorite values of \<open>newState\<close> to the in-memory Abstract and marks it
  mutated in the DirtyTracker (\<^verbatim>\<open>markMutated\<close>, which coalesces).  The handle it returns
  is the collection with the mutation pending; the handle's \<^verbatim>\<open>commit()\<close> is \<open>commit\<close>.
  There is nothing to change for an id that has no in-memory Abstract.
\<close>

definition updateAbstract :: "string \<Rightarrow> Abstract \<Rightarrow> Collection \<Rightarrow> Collection" where
  "updateAbstract i newState c =
     (case abstracts c i of
        None \<Rightarrow> c
      | Some a \<Rightarrow>
          c\<lparr>abstracts := (abstracts c)(i \<mapsto> a\<lparr>read := read newState, favorite := favorite newState\<rparr>),
            pending := insert i (pending c)\<rparr>)"

text \<open>
  Modelled from the spec: \<^verbatim>\<open>commit() -> Result\<close> (section 4.2): flushes every pending
  mutation to the ContentStore and clears the pending set; a no-op on an empty set.
  \<open>ok\<close> says whether local persistence works: on a StorageError (section 7) the
  failure is reported in the result and the pending mutations are kept for a retry.
\<close>

definition commit :: "bool \<Rightarrow> Collection \<Rightarrow> (error + unit) \<times> Collection" where
  "commit ok c =
     (if ok
      then (Inr (),
            c\<lparr>stored := (\<lambda>i. if i \<in> pending c then abstracts c i else stored c i),
              pending := {}\<rparr>)
      else (Inl StorageError, c))"

text \<open>
  Modelled from the spec: removal of a list of articles from a feed: their Abstracts
  leave the feed's catalog and the in-memory table, and the ContentStore drops the
  persisted copies and the bodies (\<^verbatim>\<open>deleteArticles\<close>, persisted before returning).
\<close>

definition deleteArticles :: "string \<Rightarrow> string list \<Rightarrow> Collection \<Rightarrow> Collection" where
  "deleteArticles u ids c =
     c\<lparr>summaries :=
         map (\<lambda>(v, sm). if v = u then (v, sm\<lparr>catalog := filter (\<lambda>i. i \<notin> set ids) (catalog sm)\<rparr>)
                         else (v, sm)) (summaries c),
       abstracts := (\<lambda>i. if i \<in> set ids then None else abstracts c i),
       pending := pending c - set ids,
       stored := (\<lambda>i. if i \<in> set ids then None else stored c i),
       contents := (\<lambda>i. if i \<in> set ids then None else contents c i)\<rparr>"

text \<open>
  Modelled from the spec: \<^verbatim>\<open>cleanOldArticles(feedURL, maxAgeMs)\<close> and
  \<^verbatim>\<open>cleanAllOldArticles(maxAgeMs)\<close> (section 4.4): deletes the Abstracts (and their
  content) older than the age threshold, except those that are unread or favorited.
  \<open>now\<close> is the clock reading in milliseconds; the sweep over all feeds visits every
  known feed URL in turn.
\<close>

definition expired :: "int \<Rightarrow> int \<Rightarrow> Collection \<Rightarrow> string \<Rightarrow> bool" where
  "expired now maxAgeMs c i =
     (case abstracts c i of
        None \<Rightarrow> False
      | Some a \<Rightarrow> read a \<and> \<not> favorite a \<and> now - published a > maxAgeMs)"

definition cleanOldArticles :: "int \<Rightarrow> string \<Rightarrow> int \<Rightarrow> Collection \<Rightarrow> Collection" where
  "cleanOldArticles now u maxAgeMs c =
     (case getSummary c u of
        None \<Rightarrow> c
      | Some sm \<Rightarrow> deleteArticles u (filter (expired now maxAgeMs c) (catalog sm)) c)"

definition cleanAllOldArticles :: "int \<Rightarrow> int \<Rightarrow> Collection \<Rightarrow> Collection" where
  "cleanAllOldArticles now maxAgeMs c =
     foldl (\<lambda>c' u. cleanOldArticles now u maxAgeMs c') c (map fst (summaries c))"

text \<open>
  Modelled from the spec: \<^verbatim>\<open>addToFavorites(id)\<close> and \<^verbatim>\<open>removeFromFavorites(id)\<close>
  (section 4.4) change the Abstract's favorite flag and the FavoritesList together;
  a missing article is \<^verbatim>\<open>NotFound\<close> (section 7) and changes nothing.
\<close>

definition addToFavorites :: "string \<Rightarrow> Collection \<Rightarrow> error + Collection" where
  "addToFavorites i c =
     (case abstracts c i of
        None \<Rightarrow> Inl NotFound
      | Some a \<Rightarrow>
          Inr (c\<lparr>abstracts := (abstracts c)(i \<mapsto> a\<lparr>favorite := True\<rparr>),
                 favorites := (if i \<in> set (favorites c) then favorites c else favorites c @ [i]),
                 pending := insert i (pending c)\<rparr>))"

definition removeFromFavorites :: "string \<Rightarrow> Collection \<Rightarrow> error + Collection" where
  "removeFromFavorites i c =
     (case abstracts c i of
        None \<Rightarrow> Inl NotFound
      | Some a \<Rightarrow>
          Inr (c\<lparr>abstracts := (abstracts c)(i \<mapsto> a\<lparr>favorite := False\<rparr>),
                 favorites := removeAll i (favorites c),
                 pending := insert i (pending c)\<rparr>))"

text \<open>
  Modelled from the spec: \<^verbatim>\<open>getFavorites()\<close>, the Abstracts of the FavoritesList in list
  order.
\<close>

definition getFavorites :: "Collection \<Rightarrow> Abstract list" where
  "getFavorites c = List.map_filter (abstracts c) (favorites c)"

text \<open>
  Modelled from the spec: \<^verbatim>\<open>delFeed(url)\<close> (section 4.4) removes the Summary and its
  Abstracts, with their persisted copies and bodies, and the favorites that reference
  those Abstracts; deleting an unknown feed changes nothing (\<^verbatim>\<open>deleteFeed\<close> is
  idempotent).
\<close>

definition delFeed :: "string \<Rightarrow> Collection \<Rightarrow> Collection" where
  "delFeed u c =
     (case getSummary c u of
        None \<Rightarrow> c
      | Some sm \<Rightarrow>
          c\<lparr>summaries := AList.delete u (summaries c),
            abstracts := (\<lambda>i. if i \<in> set (catalog sm) then None else abstracts c i),
            favorites := filter (\<lambda>i. i \<notin> set (catalog sm)) (favorites c),
            pending := pending c - set (catalog sm),
            stored := (\<lambda>i. if i \<in> set (catalog sm) then None else stored c i),
            contents := (\<lambda>i. if i \<in> set (catalog sm) then None else contents c i)\<rparr>)"

text \<open>
  The favorites invariant of the spec (section 8): an id is in the FavoritesList
  exactly when its Abstract exists and has the favorite flag.
\<close>

definition fav_inv :: "Collection \<Rightarrow> bool" where
  "fav_inv c \<longleftrightarrow>
     (\<forall>i. i \<in> set (favorites c) \<longleftrightarrow> (\<exists>a. abstracts c i = Some a \<and> favorite a))"

section \<open>The App object\<close>

text \<open>
  The handlers of src/src/app.ts as functions on the \<open>App\<close> state.  A handler that
  can throw returns the error (if any) with the state reached.  Awaited calls whose
  failure neither the sources nor the specification describe (the progress
  notification, the configuration update, \<^verbatim>\<open>clean()\<close> of a Collection) are taken to
  complete.
\<close>

text \<open>
  \<^verbatim>\<open>collections\<close> is created as \<^verbatim>\<open>{}\<close>, so \<^verbatim>\<open>this.collections[key]\<close> reads the object's
  own property and, when there is none, the property of that name which every object
  inherits from \<^verbatim>\<open>Object.prototype\<close>: a function, or for \<^verbatim>\<open>__proto__\<close> the prototype
  object.  Such a value is not undefined and has none of the methods of a Collection.
  So a method call on \<^verbatim>\<open>this.collections[key]\<close> is a \<^verbatim>\<open>TypeError\<close> whenever no Collection is
  registered under the key, whether the lookup gives undefined or an inherited value;
  only a test against undefined tells the two apart.
\<close>

definition Object_prototype :: "string list" where
  "Object_prototype =
     [''constructor'', ''__defineGetter__'', ''__defineSetter__'', ''hasOwnProperty'',
      ''__lookupGetter__'', ''__lookupSetter__'', ''isPrototypeOf'',
      ''propertyIsEnumerable'', ''toString'', ''valueOf'', ''__proto__'',
      ''toLocaleString'']"

definition inherited :: "string \<Rightarrow> bool" where
  "inherited k \<longleftrightarrow> k \<in> set Object_prototype"

definition ACCOUNT :: nat where "ACCOUNT = 1"
definition FEED :: nat where "FEED = push_bit 1 1"
definition ARTICLE :: nat where "ARTICLE = push_bit 2 1"
definition FAVORITES :: nat where "FAVORITES = push_bit 3 1"
definition STATUS_BAR :: nat where "STATUS_BAR = push_bit 4 1"

text \<open>The default argument \<^verbatim>\<open>0b11111\<close> of \<^verbatim>\<open>refreshLists\<close>.\<close>

definition ALL_LISTS :: nat where "ALL_LISTS = 31"

definition refresh_calls :: "nat \<Rightarrow> event list" where
  "refresh_calls list =
     (if list AND ACCOUNT \<noteq> 0 then [Refresh AccountList] else []) @
     (if list AND FEED \<noteq> 0 then [Refresh FeedList] else []) @
     (if list AND ARTICLE \<noteq> 0 then [Refresh ArticleList] else []) @
     (if list AND FAVORITES \<noteq> 0 then [Refresh FavoritesList] else []) @
     (if list AND STATUS_BAR \<noteq> 0 then [Refresh StatusBar] else [])"

definition log :: "event list \<Rightarrow> App \<Rightarrow> App" where
  "log es s = s\<lparr>trace := trace s @ es\<rparr>"

definition refreshLists :: "nat \<Rightarrow> App \<Rightarrow> App" where
  "refreshLists list s = log (refresh_calls list) s"

text \<open>
  \<^verbatim>\<open>this.collections[this.current_account!]\<close>: an undefined \<^verbatim>\<open>current_account\<close> reads the
  property named \<^verbatim>\<open>undefined\<close>.
\<close>

definition curr_key :: "App \<Rightarrow> string" where
  "curr_key s = (case current_account s of None \<Rightarrow> ''undefined'' | Some k \<Rightarrow> k)"

definition currCollection :: "App \<Rightarrow> Collection option" where
  "currCollection s = map_of (collections s) (curr_key s)"

text \<open>
  A Collection method mutates the object registered under its key; the model writes
  the new value back in place.
\<close>

definition put_collection :: "string \<Rightarrow> Collection \<Rightarrow> App \<Rightarrow> App" where
  "put_collection k c s = s\<lparr>collections := AList.update k c (collections s)\<rparr>"

definition currArticles :: "App \<Rightarrow> error + Abstract list" where
  "currArticles s =
     (case current_feed s of
        None \<Rightarrow> Inr []
      | Some f \<Rightarrow>
          (case currCollection s of
             None \<Rightarrow> Inl TypeError
           | Some c \<Rightarrow> Inr (getArticles c f)))"

definition rss_select :: "string \<Rightarrow> App \<Rightarrow> App" where
  "rss_select account s =
     refreshLists (FEED OR ARTICLE OR FAVORITES)
       (s\<lparr>current_account := Some account,
          current_feed := None,
          article_tree_view := map_option (\<lambda>_. ''Articles'') (article_tree_view s)\<rparr>)"

text \<open>
  \<^verbatim>\<open>removeAccount\<close> (app.ts lines 116-127).  With no Collection registered under the
  key, \<^verbatim>\<open>collection === undefined\<close> holds and the function returns, unless the key
  names an inherited property: then the test fails, \<^verbatim>\<open>collection.clean\<close> is undefined
  and calling it throws, before anything has changed.
\<close>

definition removeAccount :: "string \<Rightarrow> App \<Rightarrow> error option \<times> App" where
  "removeAccount k s =
     (case map_of (collections s) k of
        None \<Rightarrow> if inherited k then (Some TypeError, s) else (None, s)
      | Some collection \<Rightarrow>
          (let s1 = log [Call k Clean] s;
               s2 = s1\<lparr>collections := AList.delete k (collections s1)\<rparr>;
               accounts' = AList.delete k (accounts s2)
           in (None, log [CfgUpdate accounts'] (s2\<lparr>accounts := accounts'\<rparr>))))"

subsection \<open>Refresh\<close>

text \<open>
  The three refresh handlers set \<^verbatim>\<open>updating\<close>, start the fetch inside
  \<^verbatim>\<open>withProgress\<close> and await it; the rest of the callback (\<^verbatim>\<open>refreshLists\<close>, then
  \<^verbatim>\<open>updating = false\<close>) runs when the fetch has settled.  Other handlers can run in
  between, so a handler below is the part up to that await, and \<open>refresh_settled\<close> is
  the part after it; \<open>merged\<close> is what the fetch has made of the collections meanwhile.
  A fetch that throws leaves the rest of the callback unexecuted.
\<close>

definition rss_refresh :: "bool \<Rightarrow> App \<Rightarrow> error option \<times> App" where
  "rss_refresh auto s =
     (if updating s then (None, s)
      else (let s1 = log [WithProgress (if auto then Window else Notification)]
                       (s\<lparr>updating := True\<rparr>)
            in (None, log (map (\<lambda>(k, c). Call k (FetchAll True)) (collections s1)) s1)))"

definition rss_refresh_account :: "Account option \<Rightarrow> App \<Rightarrow> error option \<times> App" where
  "rss_refresh_account account s =
     (if updating s then (None, s)
      else (let s1 = log [WithProgress Notification] (s\<lparr>updating := True\<rparr>);
                k = (case account of Some a \<Rightarrow> key a | None \<Rightarrow> curr_key s1)
            in (case map_of (collections s1) k of
                  None \<Rightarrow> (Some TypeError, s1)
                | Some collection \<Rightarrow> (None, log [Call k (FetchAll True)] s1))))"

definition rss_refresh_one :: "Feed option \<Rightarrow> App \<Rightarrow> error option \<times> App" where
  "rss_refresh_one fd s =
     (if updating s then (None, s)
      else (case (case fd of Some f \<Rightarrow> Some (feed f) | None \<Rightarrow> current_feed s) of
              None \<Rightarrow> (None, s)
            | Some u \<Rightarrow>
                (let s1 = log [WithProgress Notification] (s\<lparr>updating := True\<rparr>)
                 in (case currCollection s1 of
                       None \<Rightarrow> (Some TypeError, s1)
                     | Some collection \<Rightarrow> (None, log [Call (curr_key s1) (FetchOne u True)] s1)))))"

definition refresh_settled :: "(string \<times> Collection) list \<Rightarrow> App \<Rightarrow> App" where
  "refresh_settled merged s = (refreshLists ALL_LISTS (s\<lparr>collections := merged\<rparr>))\<lparr>updating := False\<rparr>"

text \<open>The events a handler added to the trace.\<close>

definition new_events :: "App \<Rightarrow> App \<Rightarrow> event list" where
  "new_events s s' = drop (length (trace s)) (trace s')"

subsection \<open>Read state\<close>

text \<open>
  \<^verbatim>\<open>rss_mark_read\<close> and \<^verbatim>\<open>rss_mark_unread\<close> set the flag on the Abstract they were handed,
  refresh the views and commit through the handle of \<^verbatim>\<open>updateAbstract\<close>.  The App
  ignores the Result of \<^verbatim>\<open>commit()\<close>; \<open>ok\<close> is passed on to it.
\<close>

definition mark_one :: "bool \<Rightarrow> bool \<Rightarrow> Article \<Rightarrow> App \<Rightarrow> error option \<times> App" where
  "mark_one ok flag article s =
     (let a = (abstract article)\<lparr>read := flag\<rparr>;
          s1 = refreshLists ALL_LISTS s
      in (case currCollection s1 of
            None \<Rightarrow> (Some TypeError, s1)
          | Some c \<Rightarrow>
              (let k = curr_key s1;
                   handle = updateAbstract (id' a) a c;
                   s2 = log [Call k (UpdateAbstract (id' a))] (put_collection k handle s1)
               in (None, log [Call k Commit] (put_collection k (snd (commit ok handle)) s2)))))"

definition rss_mark_read :: "bool \<Rightarrow> Article \<Rightarrow> App \<Rightarrow> error option \<times> App" where
  "rss_mark_read ok article s = mark_one ok True article s"

definition rss_mark_unread :: "bool \<Rightarrow> Article \<Rightarrow> App \<Rightarrow> error option \<times> App" where
  "rss_mark_unread ok article s = mark_one ok False article s"

text \<open>The loop of \<^verbatim>\<open>rss_mark_all_read\<close>: one \<^verbatim>\<open>updateAbstract\<close> per Abstract, no commit.\<close>

fun mark_each :: "Abstract list \<Rightarrow> App \<Rightarrow> error option \<times> App" where
  "mark_each [] s = (None, s)"
| "mark_each (a # as) s =
     (case currCollection s of
        None \<Rightarrow> (Some TypeError, s)
      | Some c \<Rightarrow>
          mark_each as
            (log [Call (curr_key s) (UpdateAbstract (id' a))]
               (put_collection (curr_key s) (updateAbstract (id' a) (a\<lparr>read := True\<rparr>) c) s)))"

definition rss_mark_all_read :: "bool \<Rightarrow> Feed option \<Rightarrow> App \<Rightarrow> error option \<times> App" where
  "rss_mark_all_read ok fd s =
     (case (case fd of
              Some f \<Rightarrow> (case currCollection s of
                           None \<Rightarrow> Inl TypeError
                         | Some c \<Rightarrow> Inr (getArticles c (feed f)))
            | None \<Rightarrow> currArticles s) of
        Inl e \<Rightarrow> (Some e, s)
      | Inr arts \<Rightarrow>
          (case mark_each arts s of
             (Some e, s1) \<Rightarrow> (Some e, s1)
           | (None, s1) \<Rightarrow>
               (let s2 = refreshLists ALL_LISTS s1
                in (case currCollection s2 of
                      None \<Rightarrow> (Some TypeError, s2)
                    | Some c \<Rightarrow>
                        (None, log [Call (curr_key s2) Commit]
                                 (put_collection (curr_key s2) (snd (commit ok c)) s2))))))"

text \<open>
  The \<^verbatim>\<open>next\<close> message of the article panel (app.ts lines 452-459) opens the first
  Abstract of \<^verbatim>\<open>getArticles('<unread>')\<close>, if there is one.
\<close>

definition next_unread :: "App \<Rightarrow> error + Abstract option" where
  "next_unread s =
     (case currCollection s of
        None \<Rightarrow> Inl TypeError
      | Some c \<Rightarrow> Inr (case getArticles c ''<unread>'' of [] \<Rightarrow> None | a # _ \<Rightarrow> Some a))"

subsection \<open>Favorites and feed removal\<close>

definition rss_add_to_favorites :: "Article \<Rightarrow> App \<Rightarrow> error option \<times> App" where
  "rss_add_to_favorites article s =
     (case currCollection s of
        None \<Rightarrow> (Some TypeError, s)
      | Some c \<Rightarrow>
          (let k = curr_key s;
               s1 = log [Call k (AddToFavorites (id' (abstract article)))] s
           in (case addToFavorites (id' (abstract article)) c of
                 Inl e \<Rightarrow> (Some e, s1)
               | Inr c' \<Rightarrow> (None, refreshLists FAVORITES (put_collection k c' s1)))))"

definition rss_remove_from_favorites :: "Item \<Rightarrow> App \<Rightarrow> error option \<times> App" where
  "rss_remove_from_favorites item s =
     (case currCollection s of
        None \<Rightarrow> (Some TypeError, s)
      | Some c \<Rightarrow>
          (let k = curr_key s;
               s1 = log [Call k (RemoveFromFavorites (id' (item_abstract item)))] s
           in (case removeFromFavorites (id' (item_abstract item)) c of
                 Inl e \<Rightarrow> (Some e, s1)
               | Inr c' \<Rightarrow> (None, refreshLists FAVORITES (put_collection k c' s1)))))"

definition rss_remove_feed :: "Feed \<Rightarrow> App \<Rightarrow> error option \<times> App" where
  "rss_remove_feed fd s =
     (case currCollection s of
        None \<Rightarrow> (Some TypeError, s)
      | Some c \<Rightarrow>
          (None, log [Call (curr_key s) (DelFeed (feed fd))]
                   (put_collection (curr_key s) (delFeed (feed fd) c) s)))"

subsection \<open>Retention\<close>

text \<open>
  \<^verbatim>\<open>selectExpire\<close>: \<open>pick\<close> is what the quick pick returned.  A label outside the list
  would index \<^verbatim>\<open>t[-1]\<close> and give \<^verbatim>\<open>NaN\<close>, which the callers' \<^verbatim>\<open>!expire\<close> treats like
  \<^verbatim>\<open>undefined\<close>; both are \<open>None\<close> here.
\<close>

definition expire_labels :: "string list" where
  "expire_labels = [''1 month'', ''2 months'', ''3 months'', ''6 months'']"

definition expire_days :: "int list" where
  "expire_days = [1 * 30, 2 * 30, 3 * 30, 6 * 30]"

definition selectExpire :: "string option \<Rightarrow> int option" where
  "selectExpire pick =
     (case pick of
        None \<Rightarrow> None
      | Some time \<Rightarrow>
          if time = [] then None
          else map_option (\<lambda>d. d * 86400 * 1000) (map_of (zip expire_labels expire_days) time))"

definition rss_clean_old_articles :: "int \<Rightarrow> string option \<Rightarrow> Feed \<Rightarrow> App \<Rightarrow> error option \<times> App" where
  "rss_clean_old_articles now pick fd s =
     (case selectExpire pick of
        None \<Rightarrow> (None, s)
      | Some exprie \<Rightarrow>
          if exprie = 0 then (None, s)
          else (let s1 = log [WithProgress Notification] s
                in (case currCollection s1 of
                      None \<Rightarrow> (Some TypeError, s1)
                    | Some c \<Rightarrow>
                        (None, refreshLists (ARTICLE OR STATUS_BAR)
                                 (log [Call (curr_key s1) (CleanOldArticles (feed fd) exprie)]
                                    (put_collection (curr_key s1)
                                       (cleanOldArticles now (feed fd) exprie c) s1))))))"

definition rss_clean_all_old_articles :: "int \<Rightarrow> string option \<Rightarrow> Account \<Rightarrow> App \<Rightarrow> error option \<times> App" where
  "rss_clean_all_old_articles now pick account s =
     (case selectExpire pick of
        None \<Rightarrow> (None, s)
      | Some expire \<Rightarrow>
          if expire = 0 then (None, s)
          else (let s1 = log [WithProgress Notification] s
                in (case map_of (collections s1) (key account) of
                      None \<Rightarrow> (Some TypeError, s1)
                    | Some collection \<Rightarrow>
                        (None, refreshLists (ARTICLE OR STATUS_BAR)
                                 (log [Call (key account) (CleanAllOldArticles expire)]
                                    (put_collection (key account)
                                       (cleanAllOldArticles now expire collection) s1))))))"

section \<open>The AI configuration manager\<close>

text \<open>
  \<^verbatim>\<open>AIConfigManager\<close> (src/unnamed/part_000).  An API key is a JavaScript string, a
  sequence of UTF-16 code units; \<^verbatim>\<open>String.prototype.trim\<close> strips the ECMAScript
  WhiteSpace and LineTerminator code points from both ends.
\<close>

type_synonym jsstring = "16 word list"

definition is_white_space :: "16 word \<Rightarrow> bool" where
  "is_white_space c \<longleftrightarrow>
     c \<in> {0x09, 0x0A, 0x0B, 0x0C, 0x0D, 0x20, 0xA0, 0x1680,
          0x2028, 0x2029, 0x202F, 0x205F, 0x3000, 0xFEFF}
     \<or> (0x2000 \<le> c \<and> c \<le> 0x200A)"

definition trim :: "jsstring \<Rightarrow> jsstring" where
  "trim str = rev (dropWhile is_white_space (rev (dropWhile is_white_space str)))"

text \<open>
  The SecretStorage of the extension context and the \<^verbatim>\<open>rss.ai-brief-api-key\<close> setting.
\<close>

record AIConfig =
  secrets :: "string \<rightharpoonup> jsstring"
  ai_brief_api_key :: "jsstring option"

definition SECRET_KEY :: string where
  "SECRET_KEY = ''rss.ai-brief-api-key''"

text \<open>The test \<^verbatim>\<open>k && k.trim() !== ''\<close> on a string.\<close>

definition nonblank :: "jsstring \<Rightarrow> bool" where
  "nonblank k \<longleftrightarrow> k \<noteq> [] \<and> trim k \<noteq> []"

definition deleteApiKey :: "AIConfig \<Rightarrow> AIConfig" where
  "deleteApiKey st = st\<lparr>secrets := (secrets st)(SECRET_KEY := None)\<rparr>"

definition setApiKey :: "jsstring \<Rightarrow> AIConfig \<Rightarrow> AIConfig" where
  "setApiKey apiKey st =
     (if apiKey = [] \<or> trim apiKey = [] then deleteApiKey st
      else st\<lparr>secrets := (secrets st)(SECRET_KEY \<mapsto> apiKey)\<rparr>)"

text \<open>
  The fallback of \<^verbatim>\<open>getApiKey\<close> to the setting, which migrates the key to the
  SecretStorage and clears the setting.
\<close>

definition from_settings :: "AIConfig \<Rightarrow> jsstring option \<times> AIConfig" where
  "from_settings st =
     (case ai_brief_api_key st of
        None \<Rightarrow> (None, st)
      | Some settingsKey \<Rightarrow>
          if nonblank settingsKey
          then (Some settingsKey, (setApiKey settingsKey st)\<lparr>ai_brief_api_key := Some []\<rparr>)
          else (None, st))"

definition getApiKey :: "AIConfig \<Rightarrow> jsstring option \<times> AIConfig" where
  "getApiKey st =
     (case secrets st SECRET_KEY of
        None \<Rightarrow> from_settings st
      | Some secretKey \<Rightarrow>
          if nonblank secretKey then (Some secretKey, st) else from_settings st)"

section \<open>Schedules of refresh requests\<close>

text \<open>
  A schedule interleaves refresh requests with the settling of fetches.  The counter
  beside the state counts the refreshes whose fetch has been started and has not
  settled; a settling with nothing in flight does not happen.
\<close>

datatype request =
    Refresh_all bool
  | Refresh_account "Account option"
  | Refresh_one "Feed option"
  | Fetch_settled "(string \<times> Collection) list"

definition started :: "nat \<Rightarrow> App \<Rightarrow> error option \<times> App \<Rightarrow> nat \<times> App" where
  "started n s r =
     (if fst r = None \<and> \<not> updating s \<and> updating (snd r) then Suc n else n, snd r)"

fun step :: "nat \<times> App \<Rightarrow> request \<Rightarrow> nat \<times> App" where
  "step (n, s) (Refresh_all auto) = started n s (rss_refresh auto s)"
| "step (n, s) (Refresh_account account) = started n s (rss_refresh_account account s)"
| "step (n, s) (Refresh_one fd) = started n s (rss_refresh_one fd s)"
| "step (n, s) (Fetch_settled merged) =
     (if n = 0 then (n, s) else (n - 1, refresh_settled merged s))"

definition one_at_most :: "nat \<times> App \<Rightarrow> bool" where
  "one_at_most st \<longleftrightarrow> fst st = 0 \<or> (fst st = 1 \<and> updating (snd st))"

section \<open>Notions used in the properties\<close>

text \<open>Whether article \<open>i\<close> is listed in the catalog of feed \<open>u\<close>.\<close>

definition in_catalog :: "Collection \<Rightarrow> string \<Rightarrow> string \<Rightarrow> bool" where
  "in_catalog c u i =
     (case getSummary c u of None \<Rightarrow> False | Some sm \<Rightarrow> i \<in> set (catalog sm))"

text \<open>
  Article \<open>i\<close> is the same in \<open>c'\<close> as in \<open>c\<close>: its in-memory Abstract, its persisted
  copy, its body, the catalogs that list it, its place among the favorites and its
  pending mark.
\<close>

definition kept :: "Collection \<Rightarrow> Collection \<Rightarrow> string \<Rightarrow> bool" where
  "kept c c' i \<longleftrightarrow>
     abstracts c' i = abstracts c i \<and> stored c' i = stored c i \<and>
     contents c' i = contents c i \<and>
     (\<forall>u. in_catalog c' u i = in_catalog c u i) \<and>
     (i \<in> set (favorites c') \<longleftrightarrow> i \<in> set (favorites c)) \<and>
     (i \<in> pending c' \<longleftrightarrow> i \<in> pending c)"

text \<open>The favorites invariant in every registered Collection.\<close>

definition app_fav_inv :: "App \<Rightarrow> bool" where
  "app_fav_inv s \<longleftrightarrow> (\<forall>k c. map_of (collections s) k = Some c \<longrightarrow> fav_inv c)"

text \<open>Every in-memory Abstract is filed under its own id.\<close>

definition wf_ids :: "Collection \<Rightarrow> bool" where
  "wf_ids c \<longleftrightarrow> (\<forall>i a. abstracts c i = Some a \<longrightarrow> id' a = i)"

text \<open>What the loop of \<^verbatim>\<open>rss_mark_all_read\<close> makes of the Collection.\<close>

definition mark_all :: "Abstract list \<Rightarrow> Collection \<Rightarrow> Collection" where
  "mark_all as c = foldl (\<lambda>c' a. updateAbstract (id' a) (a\<lparr>read := True\<rparr>) c') c as"

text \<open>
  The Abstracts \<^verbatim>\<open>rss_mark_all_read\<close> works on: those of the feed it is given, or of
  the current feed.
\<close>

definition target_articles :: "Feed option \<Rightarrow> App \<Rightarrow> Collection \<Rightarrow> Abstract list" where
  "target_articles fd s c =
     (case fd of
        Some f \<Rightarrow> getArticles c (feed f)
      | None \<Rightarrow> (case current_feed s of None \<Rightarrow> [] | Some u \<Rightarrow> getArticles c u))"

definition is_commit :: "event \<Rightarrow> bool" where
  "is_commit e = (case e of Call k Commit \<Rightarrow> True | _ \<Rightarrow> False)"

text \<open>A stored value that is blank, read as no value.\<close>

definition absent_if_blank :: "jsstring option \<Rightarrow> jsstring option" where
  "absent_if_blank v =
     (case v of None \<Rightarrow> None | Some k \<Rightarrow> if list_all is_white_space k then None else Some k)"

section \<open>Example states\<close>

definition item_A :: Abstract where
  "item_A = \<lparr>id' = ''a'', title = ''A'', published = 1000, source_feed = ''F'',
     link = None, read = False, favorite = False\<rparr>"

definition item_B :: Abstract where
  "item_B = \<lparr>id' = ''b'', title = ''B'', published = 2000, source_feed = ''F'',
     link = Some ''http://b'', read = False, favorite = False\<rparr>"

definition item_C :: Abstract where
  "item_C = \<lparr>id' = ''c'', title = ''C'', published = 0, source_feed = ''G'',
     link = None, read = True, favorite = False\<rparr>"

definition summary_F :: Summary where
  "summary_F = \<lparr>url = ''F'', feed_title = ''Feed F'', site_link = ''http://f'',
     catalog = [''a'', ''b''], validator = None, folder_path = []\<rparr>"

definition summary_G :: Summary where
  "summary_G = \<lparr>url = ''G'', feed_title = ''Feed G'', site_link = ''http://g'',
     catalog = [''c''], validator = None, folder_path = []\<rparr>"

definition empty_collection :: Collection where
  "empty_collection = \<lparr>summaries = [], abstracts = Map.empty, favorites = [], pending = {},
     stored = Map.empty, contents = Map.empty\<rparr>"

definition collection_F :: Collection where
  "collection_F = \<lparr>summaries = [(''F'', summary_F)],
     abstracts = [''a'' \<mapsto> item_A, ''b'' \<mapsto> item_B],
     favorites = [], pending = {},
     stored = [''a'' \<mapsto> item_A, ''b'' \<mapsto> item_B],
     contents = [''a'' \<mapsto> ''<p>A</p>'', ''b'' \<mapsto> ''<p>B</p>'']\<rparr>"

definition collection_FG :: Collection where
  "collection_FG = \<lparr>summaries = [(''F'', summary_F), (''G'', summary_G)],
     abstracts = [''a'' \<mapsto> item_A, ''b'' \<mapsto> item_B, ''c'' \<mapsto> item_C],
     favorites = [], pending = {},
     stored = [''a'' \<mapsto> item_A, ''b'' \<mapsto> item_B, ''c'' \<mapsto> item_C],
     contents = [''a'' \<mapsto> ''<p>A</p>'', ''b'' \<mapsto> ''<p>B</p>'', ''c'' \<mapsto> ''<p>C</p>'']\<rparr>"

text \<open>\<open>collection_F\<close> after article b has been added to the favorites.\<close>

definition collection_F_starred :: Collection where
  "collection_F_starred = collection_F\<lparr>
     abstracts := (abstracts collection_F)(''b'' \<mapsto> item_B\<lparr>favorite := True\<rparr>),
     favorites := [''b''],
     pending := {''b''}\<rparr>"

definition local_account :: AccountCfg where
  "local_account = \<lparr>name = ''local'', kind = Local\<rparr>"

definition remote_account :: AccountCfg where
  "remote_account = \<lparr>name = ''remote'', kind = TTRSS\<rparr>"

definition app_two :: App where
  "app_two = \<lparr>current_account = Some ''A'', current_feed = None, updating = False,
     collections = [(''A'', collection_F), (''B'', empty_collection)],
     accounts = [(''A'', local_account), (''B'', remote_account)],
     article_tree_view = Some ''Articles'', trace = []\<rparr>"

text \<open>
  The state \<^verbatim>\<open>initAccounts\<close> reaches from a configuration with the accounts A and
  \<^verbatim>\<open>constructor\<close>: its test \<^verbatim>\<open>this.collections[key]\<close> (app.ts line 52) finds the inherited
  property and skips the account, so no Collection is registered for it.
\<close>

definition app_constructor :: App where
  "app_constructor = \<lparr>current_account = Some ''A'', current_feed = None, updating = False,
     collections = [(''A'', collection_F)],
     accounts = [(''A'', local_account), (''constructor'', local_account)],
     article_tree_view = Some ''Articles'', trace = []\<rparr>"

definition app_FG :: App where
  "app_FG = \<lparr>current_account = Some ''A'', current_feed = Some ''F'', updating = False,
     collections = [(''A'', collection_FG)],
     accounts = [(''A'', local_account)],
     article_tree_view = Some ''Articles (Feed F)'', trace = []\<rparr>"

definition blank_key :: jsstring where
  "blank_key = [0x20, 0x09, 0x3000]"

definition sk_key :: jsstring where
  "sk_key = [0x20, 0x73, 0x6B, 0x2D, 0x31, 0x0A]"

definition cfg_blank :: AIConfig where
  "cfg_blank = \<lparr>secrets = [SECRET_KEY \<mapsto> blank_key], ai_brief_api_key = Some sk_key\<rparr>"

section \<open>Basic facts\<close>

lemma refresh_calls_all:
  "refresh_calls ALL_LISTS =
     [Refresh AccountList, Refresh FeedList, Refresh ArticleList, Refresh FavoritesList,
      Refresh StatusBar]"
  by (simp add: refresh_calls_def ALL_LISTS_def ACCOUNT_def FEED_def ARTICLE_def
      FAVORITES_def STATUS_BAR_def)

lemma refresh_calls_select:
  "refresh_calls (FEED OR ARTICLE OR FAVORITES) =
     [Refresh FeedList, Refresh ArticleList, Refresh FavoritesList]"
  by (simp add: refresh_calls_def ACCOUNT_def FEED_def ARTICLE_def FAVORITES_def
      STATUS_BAR_def)

lemma curr_key_log [simp]: "curr_key (log es s) = curr_key s"
  by (simp add: curr_key_def log_def)

lemma collections_log [simp]: "collections (log es s) = collections s"
  by (simp add: log_def)

lemma collections_refreshLists [simp]: "collections (refreshLists l s) = collections s"
  by (simp add: refreshLists_def)

lemma curr_key_refreshLists [simp]: "curr_key (refreshLists l s) = curr_key s"
  by (simp add: refreshLists_def)

lemma curr_key_put [simp]: "curr_key (put_collection k c s) = curr_key s"
  by (simp add: curr_key_def put_collection_def)

lemma collections_put [simp]:
  "map_of (collections (put_collection k c s)) k' =
     (if k' = k then Some c else map_of (collections s) k')"
  by (simp add: put_collection_def update_conv')

lemma currCollection_log [simp]: "currCollection (log es s) = currCollection s"
  by (simp add: currCollection_def)

lemma currCollection_refreshLists [simp]:
  "currCollection (refreshLists l s) = currCollection s"
  by (simp add: currCollection_def)

lemma currCollection_put [simp]:
  "currCollection (put_collection k c s) =
     (if curr_key s = k then Some c else currCollection s)"
  by (simp add: currCollection_def)

lemma trace_log [simp]: "trace (log es s) = trace s @ es"
  by (simp add: log_def)

lemma trace_put [simp]: "trace (put_collection k c s) = trace s"
  by (simp add: put_collection_def)

lemma trace_refreshLists [simp]: "trace (refreshLists l s) = trace s @ refresh_calls l"
  by (simp add: refreshLists_def)

lemma set_map_filter_conv:
  "set (List.map_filter f xs) = {y. \<exists>x. x \<in> set xs \<and> f x = Some y}"
  by (induction xs) (auto split: option.splits)

lemma length_filter_map_filter:
  "length (filter P (List.map_filter f xs)) =
     length (filter (\<lambda>i. case f i of None \<Rightarrow> False | Some a \<Rightarrow> P a) xs)"
  by (induction xs) (auto split: option.splits)

lemma map_of_map_catalog:
  "map_of (map (\<lambda>(v, sm). if v = u then (v, f sm) else (v, sm)) al) w =
     map_option (\<lambda>sm. if w = u then f sm else sm) (map_of al w)"
  by (induction al) auto

section \<open>The current articles\<close>

text \<open>
  Claim C8.  When no feed is selected (\<open>current_feed\<close> undefined), \<open>currArticles\<close>
  returns the empty list; that is the case right after \<open>rss_select\<close> has switched
  the account.  The result does not depend on the collections: it is the empty list
  even when no Collection is registered for the current account, where consulting one
  would be a TypeError.
\<close>

theorem currArticles_no_feed:
  "currArticles (rss_select account s) = Inr [] \<and>
   (current_feed s = None \<longrightarrow> currArticles s = Inr [])"
  by (simp add: currArticles_def rss_select_def refreshLists_def log_def)

theorem currArticles_no_feed_witness:
  "current_feed (app_two\<lparr>current_account := None\<rparr>) = None \<and>
   currCollection (app_two\<lparr>current_account := None\<rparr>) = None \<and>
   currArticles (app_two\<lparr>current_account := None\<rparr>) = Inr [] \<and>
   currArticles (rss_select ''C'' (app_two\<lparr>current_feed := Some ''F''\<rparr>)) = Inr []"
  using currArticles_no_feed [of "''C''" "app_two\<lparr>current_feed := Some ''F''\<rparr>"]
    currArticles_no_feed [of "''C''" "app_two\<lparr>current_account := None\<rparr>"]
  by (simp add: app_two_def currCollection_def curr_key_def)

section \<open>Removing an account\<close>

text \<open>
  With no Collection registered under the key, \<open>removeAccount\<close> leaves the state as it
  was: no \<open>clean()\<close> call, the collections and the accounts configuration untouched.
  It returns, except for a key that names an inherited property, where it throws.
\<close>

lemma removeAccount_unregistered:
  "map_of (collections s) k = None \<Longrightarrow>
     removeAccount k s = (if inherited k then Some TypeError else None, s)"
  by (simp add: removeAccount_def)

text \<open>
  Claim C9 says that \<open>removeAccount\<close> with a key that has no registered Collection
  returns as a no-op.  The code does not for the account key \<^verbatim>\<open>constructor\<close>: no
  Collection is registered under it, yet the call throws a TypeError instead of
  returning (the state is as before).  For the unregistered key C it returns and
  changes nothing.
\<close>

theorem removeAccount_inherited_key:
  "map_of (collections app_constructor) ''constructor'' = None \<and>
   removeAccount ''constructor'' app_constructor = (Some TypeError, app_constructor) \<and>
   map_of (collections app_constructor) ''C'' = None \<and>
   removeAccount ''C'' app_constructor = (None, app_constructor)"
  by (simp add: removeAccount_def inherited_def Object_prototype_def app_constructor_def)

text \<open>
  Claim C7.  Removing an account that has a registered Collection calls the
  Collection's \<open>clean()\<close>, then takes the Collection out of the collections and the
  account's entry out of the accounts configuration (written back with one
  configuration update): afterwards neither holds the key.
\<close>

theorem removeAccount_registered:
  "map_of (collections s) k = Some c \<Longrightarrow>
     fst (removeAccount k s) = None \<and>
     new_events s (snd (removeAccount k s)) =
       [Call k Clean, CfgUpdate (AList.delete k (accounts s))] \<and>
     collections (snd (removeAccount k s)) = AList.delete k (collections s) \<and>
     accounts (snd (removeAccount k s)) = AList.delete k (accounts s) \<and>
     map_of (collections (snd (removeAccount k s))) k = None \<and>
     map_of (accounts (snd (removeAccount k s))) k = None \<and>
     k \<notin> set (map fst (collections (snd (removeAccount k s)))) \<and>
     k \<notin> set (map fst (accounts (snd (removeAccount k s))))"
  by (simp add: removeAccount_def new_events_def log_def Let_def delete_conv' delete_keys)

theorem removeAccount_registered_witness:
  "map_of (collections app_two) ''B'' = Some empty_collection \<and>
   fst (removeAccount ''B'' app_two) = None \<and>
   new_events app_two (snd (removeAccount ''B'' app_two)) =
     [Call ''B'' Clean, CfgUpdate [(''A'', local_account)]] \<and>
   collections (snd (removeAccount ''B'' app_two)) = [(''A'', collection_F)] \<and>
   accounts (snd (removeAccount ''B'' app_two)) = [(''A'', local_account)]"
  using removeAccount_registered [of app_two "''B''" empty_collection]
  by (simp add: app_two_def AList.delete_eq)

section \<open>The refresh guard\<close>

lemma step_one_at_most: "one_at_most st \<Longrightarrow> one_at_most (step st r)"
  by (cases st; cases r)
     (auto simp: one_at_most_def started_def rss_refresh_def rss_refresh_account_def
        rss_refresh_one_def refresh_settled_def refreshLists_def log_def Let_def
        split: option.splits)

lemma run_one_at_most: "one_at_most st \<Longrightarrow> one_at_most (foldl step st rs)"
  by (induction rs arbitrary: st) (simp_all add: step_one_at_most)

text \<open>
  Along every schedule of refresh requests and settlings, at most one refresh is in
  flight at any time.
\<close>

lemma refresh_never_overlaps: "fst (foldl step (0, s) rs) \<le> 1"
  using run_one_at_most [of "(0, s)" rs] by (auto simp: one_at_most_def)

text \<open>
  Claim C2.  While a refresh is in progress (\<open>updating\<close> is set), each of
  \<open>rss_refresh\<close>, \<open>rss_refresh_account\<close> and \<open>rss_refresh_one\<close> returns at once and
  leaves the state as it was: nothing is added to the trace, so neither \<open>fetchAll\<close>
  nor \<open>fetchOne\<close> is invoked, and nothing is queued for later.
\<close>

theorem refresh_guard:
  "updating s \<Longrightarrow>
     rss_refresh auto s = (None, s) \<and>
     rss_refresh_account account s = (None, s) \<and>
     rss_refresh_one fd s = (None, s)"
  by (simp add: rss_refresh_def rss_refresh_account_def rss_refresh_one_def)

theorem refresh_guard_witness:
  "updating (snd (rss_refresh True app_two)) \<and>
   trace (snd (rss_refresh True app_two)) =
     [WithProgress Window, Call ''A'' (FetchAll True), Call ''B'' (FetchAll True)] \<and>
   rss_refresh False (snd (rss_refresh True app_two)) = (None, snd (rss_refresh True app_two)) \<and>
   rss_refresh_account (Some \<lparr>key = ''B''\<rparr>) (snd (rss_refresh True app_two)) =
     (None, snd (rss_refresh True app_two)) \<and>
   rss_refresh_one (Some \<lparr>feed = ''F'', summary = summary_F\<rparr>) (snd (rss_refresh True app_two)) =
     (None, snd (rss_refresh True app_two))"
proof -
  have u: "updating (snd (rss_refresh True app_two))"
    by (simp add: rss_refresh_def log_def app_two_def)
  have t: "trace (snd (rss_refresh True app_two)) =
     [WithProgress Window, Call ''A'' (FetchAll True), Call ''B'' (FetchAll True)]"
    by (simp add: rss_refresh_def log_def app_two_def)
  from u t refresh_guard [OF u] show ?thesis by simp
qed




section \<open>The API key\<close>

lemma trim_blank_iff: "trim k = [] \<longleftrightarrow> list_all is_white_space k"
proof
  assume "trim k = []"
  then have every: "\<forall>x \<in> set (dropWhile is_white_space k). is_white_space x"
    by (simp add: trim_def dropWhile_eq_Nil_conv)
  have "dropWhile is_white_space k = []"
  proof (rule ccontr)
    assume ne: "dropWhile is_white_space k \<noteq> []"
    then have "\<not> is_white_space (hd (dropWhile is_white_space k))"
      by (rule hd_dropWhile)
    moreover from ne have "hd (dropWhile is_white_space k) \<in> set (dropWhile is_white_space k)"
      by simp
    ultimately show False using every by blast
  qed
  then show "list_all is_white_space k"
    by (simp add: dropWhile_eq_Nil_conv list_all_iff)
next
  assume "list_all is_white_space k"
  then show "trim k = []"
    by (auto simp: trim_def list_all_iff dest: set_dropWhileD)
qed

lemma nonblank_iff: "nonblank k \<longleftrightarrow> \<not> list_all is_white_space k"
  by (auto simp: nonblank_def trim_blank_iff)

lemma setApiKey_secret:
  "secrets (setApiKey k st) SECRET_KEY = (if list_all is_white_space k then None else Some k)"
  by (auto simp: setApiKey_def deleteApiKey_def trim_blank_iff)

lemma from_settings_result:
  "(case fst (from_settings st) of None \<Rightarrow> True | Some v \<Rightarrow> \<not> list_all is_white_space v)"
  by (simp add: from_settings_def nonblank_iff split: option.splits)

text \<open>
  Claim C10.  \<open>setApiKey\<close> with an empty or whitespace-only string deletes the stored
  secret, and with any other string stores it; \<open>getApiKey\<close> returns undefined or a
  key that is not blank (its trimmed form is not empty); \<open>getApiKey\<close> leaves the
  stored secret as it was or replaces it by a key that is not blank; and a blank
  value in the SecretStorage or in the setting gives the same answer as no value.
\<close>

theorem api_key_never_blank:
  "secrets (setApiKey k st) SECRET_KEY = (if list_all is_white_space k then None else Some k) \<and>
   (case fst (getApiKey st) of
      None \<Rightarrow> True
    | Some v \<Rightarrow> trim v \<noteq> [] \<and> \<not> list_all is_white_space v) \<and>
   (secrets (snd (getApiKey st)) SECRET_KEY = secrets st SECRET_KEY \<or>
    (\<exists>v. \<not> list_all is_white_space v \<and> secrets (snd (getApiKey st)) SECRET_KEY = Some v)) \<and>
   fst (getApiKey st) =
     fst (getApiKey
            (st\<lparr>secrets := (secrets st)(SECRET_KEY := absent_if_blank (secrets st SECRET_KEY)),
                ai_brief_api_key := absent_if_blank (ai_brief_api_key st)\<rparr>))"
proof (intro conjI)
  show "secrets (setApiKey k st) SECRET_KEY = (if list_all is_white_space k then None else Some k)"
    by (rule setApiKey_secret)
  show "case fst (getApiKey st) of
      None \<Rightarrow> True
    | Some v \<Rightarrow> trim v \<noteq> [] \<and> \<not> list_all is_white_space v"
    using from_settings_result [of st]
    by (simp add: getApiKey_def nonblank_iff trim_blank_iff split: option.splits)
  show "secrets (snd (getApiKey st)) SECRET_KEY = secrets st SECRET_KEY \<or>
    (\<exists>v. \<not> list_all is_white_space v \<and> secrets (snd (getApiKey st)) SECRET_KEY = Some v)"
    by (auto simp: getApiKey_def from_settings_def nonblank_iff setApiKey_secret
        split: option.splits)
  show "fst (getApiKey st) =
     fst (getApiKey
            (st\<lparr>secrets := (secrets st)(SECRET_KEY := absent_if_blank (secrets st SECRET_KEY)),
                ai_brief_api_key := absent_if_blank (ai_brief_api_key st)\<rparr>))"
    by (auto simp: getApiKey_def from_settings_def nonblank_iff absent_if_blank_def
        split: option.splits)
qed

text \<open>
  An instance: a SecretStorage holding a blank key and a setting holding a key with
  surrounding whitespace.
\<close>

theorem api_key_never_blank_witness:
  "secrets (setApiKey blank_key cfg_blank) SECRET_KEY = None \<and>
   secrets (setApiKey sk_key cfg_blank) SECRET_KEY = Some sk_key \<and>
   fst (getApiKey cfg_blank) = Some sk_key \<and>
   secrets (snd (getApiKey cfg_blank)) SECRET_KEY = Some sk_key \<and>
   ai_brief_api_key (snd (getApiKey cfg_blank)) = Some [] \<and>
   fst (getApiKey (snd (getApiKey cfg_blank))) = Some sk_key \<and>
   getApiKey (cfg_blank\<lparr>ai_brief_api_key := Some blank_key\<rparr>) =
     (None, cfg_blank\<lparr>ai_brief_api_key := Some blank_key\<rparr>)"
  using api_key_never_blank [of blank_key cfg_blank] api_key_never_blank [of sk_key cfg_blank]
  by (simp add: getApiKey_def from_settings_def nonblank_def cfg_blank_def setApiKey_def
      deleteApiKey_def trim_def sk_key_def blank_key_def is_white_space_def)

section \<open>Retention\<close>

lemma kept_refl: "kept c c i"
  by (simp add: kept_def)

lemma kept_trans: "kept c c1 i \<Longrightarrow> kept c1 c2 i \<Longrightarrow> kept c c2 i"
  by (simp add: kept_def)

lemma deleteArticles_kept: "i \<notin> set ids \<Longrightarrow> kept c (deleteArticles u ids c) i"
  by (auto simp: kept_def deleteArticles_def in_catalog_def getSummary_def map_of_map_catalog
      split: option.splits)

lemma cleanOld_kept: "\<not> expired now m c i \<Longrightarrow> kept c (cleanOldArticles now u m c) i"
  by (auto simp: cleanOldArticles_def kept_refl intro!: deleteArticles_kept split: option.splits)

lemma kept_expired: "kept c c' i \<Longrightarrow> expired now m c' i = expired now m c i"
  by (simp add: kept_def expired_def)

lemma cleanAll_fold_kept:
  "\<not> expired now m c i \<Longrightarrow> kept c (foldl (\<lambda>c' u. cleanOldArticles now u m c') c us) i"
proof (induction us arbitrary: c)
  case Nil
  then show ?case by (simp add: kept_refl)
next
  case (Cons u us)
  have k1: "kept c (cleanOldArticles now u m c) i"
    using Cons.prems by (rule cleanOld_kept)
  then have "\<not> expired now m (cleanOldArticles now u m c) i"
    using Cons.prems by (simp add: kept_expired)
  then have "kept (cleanOldArticles now u m c)
     (foldl (\<lambda>c' u. cleanOldArticles now u m c') (cleanOldArticles now u m c) us) i"
    by (rule Cons.IH)
  with k1 show ?case by (auto intro: kept_trans)
qed

lemma cleanAll_kept: "\<not> expired now m c i \<Longrightarrow> kept c (cleanAllOldArticles now m c) i"
  by (simp add: cleanAllOldArticles_def cleanAll_fold_kept)

lemma protected_not_expired:
  "abstracts c i = Some a \<Longrightarrow> \<not> read a \<or> favorite a \<Longrightarrow> \<not> expired now m c i"
  by (auto simp: expired_def)

lemma cleanOld_abstracts:
  "abstracts (cleanOldArticles now u m c) i = abstracts c i \<or>
   (abstracts (cleanOldArticles now u m c) i = None \<and> expired now m c i)"
  by (auto simp: cleanOldArticles_def deleteArticles_def split: option.splits)

lemma cleanAll_fold_abstracts:
  "abstracts (foldl (\<lambda>c' u. cleanOldArticles now u m c') c us) i = abstracts c i \<or>
   (abstracts (foldl (\<lambda>c' u. cleanOldArticles now u m c') c us) i = None \<and> expired now m c i)"
proof (induction us arbitrary: c)
  case Nil
  then show ?case by simp
next
  case (Cons u us)
  let ?c1 = "cleanOldArticles now u m c"
  from cleanOld_abstracts [of now u m c i] show ?case
  proof
    assume same: "abstracts ?c1 i = abstracts c i"
    then have "expired now m ?c1 i = expired now m c i" by (simp add: expired_def)
    with same Cons.IH [of ?c1] show ?thesis by auto
  next
    assume gone: "abstracts ?c1 i = None \<and> expired now m c i"
    with Cons.IH [of ?c1] show ?thesis by auto
  qed
qed

lemma expired_old:
  "abstracts c i = Some a \<Longrightarrow> expired now m c i \<Longrightarrow>
     read a \<and> \<not> favorite a \<and> now - published a > m"
  by (simp add: expired_def)

lemma clean_old_handler_kept:
  assumes "map_of (collections s) k = Some c" and "abstracts c i = Some a"
    and "\<not> read a \<or> favorite a"
  shows "\<exists>c'. map_of (collections (snd (rss_clean_old_articles now pick fd s))) k = Some c' \<and>
           kept c c' i"
proof (cases "k = curr_key s")
  case True
  with assms(1) have cur: "currCollection s = Some c" by (simp add: currCollection_def)
  have "\<And>e. kept c (cleanOldArticles now (feed fd) e c) i"
    using assms(2,3) by (intro cleanOld_kept protected_not_expired)
  with cur True assms(1) show ?thesis
    by (auto simp: rss_clean_old_articles_def Let_def kept_refl split: option.splits)
next
  case False
  with assms(1) show ?thesis
    by (auto simp: rss_clean_old_articles_def Let_def kept_refl split: option.splits)
qed

lemma clean_all_handler_kept:
  assumes "map_of (collections s) k = Some c" and "abstracts c i = Some a"
    and "\<not> read a \<or> favorite a"
  shows "\<exists>c'. map_of (collections (snd (rss_clean_all_old_articles now pick account s))) k = Some c' \<and>
           kept c c' i"
proof (cases "k = key account")
  case True
  have "\<And>e. kept c (cleanAllOldArticles now e c) i"
    using assms(2,3) by (intro cleanAll_kept protected_not_expired)
  with True assms(1) show ?thesis
    by (auto simp: rss_clean_all_old_articles_def Let_def kept_refl split: option.splits)
next
  case False
  with assms(1) show ?thesis
    by (auto simp: rss_clean_all_old_articles_def Let_def kept_refl split: option.splits)
qed

text \<open>
  Claim C1.  An Abstract that is unread or favorited is kept by \<open>cleanOldArticles\<close>
  and by \<open>cleanAllOldArticles\<close>, whatever its age and whatever the threshold: its
  in-memory record, its persisted copy, its content and its catalog entries are as
  before; the same holds in every registered Collection after the handlers
  \<open>rss_clean_old_articles\<close> and \<open>rss_clean_all_old_articles\<close>, whatever the user
  picks.  An Abstract that either operation deletes was read, not favorited and older
  than the threshold.
\<close>

theorem retention_safety:
  "abstracts c i = Some a \<Longrightarrow>
     (\<not> read a \<or> favorite a \<longrightarrow>
        kept c (cleanOldArticles now u maxAgeMs c) i \<and>
        kept c (cleanAllOldArticles now maxAgeMs c) i \<and>
        (map_of (collections s) k = Some c \<longrightarrow>
           (\<exists>c'. map_of (collections (snd (rss_clean_old_articles now pick fd s))) k = Some c' \<and>
                 kept c c' i) \<and>
           (\<exists>c'. map_of (collections (snd (rss_clean_all_old_articles now pick account s))) k = Some c' \<and>
                 kept c c' i))) \<and>
     (abstracts (cleanOldArticles now u maxAgeMs c) i \<noteq> Some a \<longrightarrow>
        abstracts (cleanOldArticles now u maxAgeMs c) i = None \<and>
        read a \<and> \<not> favorite a \<and> now - published a > maxAgeMs) \<and>
     (abstracts (cleanAllOldArticles now maxAgeMs c) i \<noteq> Some a \<longrightarrow>
        abstracts (cleanAllOldArticles now maxAgeMs c) i = None \<and>
        read a \<and> \<not> favorite a \<and> now - published a > maxAgeMs)"
proof (intro conjI impI)
  assume a: "abstracts c i = Some a" and p: "\<not> read a \<or> favorite a"
  from a p have ne: "\<not> expired now maxAgeMs c i" by (rule protected_not_expired)
  from ne show "kept c (cleanOldArticles now u maxAgeMs c) i" by (rule cleanOld_kept)
  from ne show "kept c (cleanAllOldArticles now maxAgeMs c) i" by (rule cleanAll_kept)
  assume m: "map_of (collections s) k = Some c"
  from m a p
  show "\<exists>c'. map_of (collections (snd (rss_clean_old_articles now pick fd s))) k = Some c' \<and>
          kept c c' i"
    by (rule clean_old_handler_kept)
  from m a p
  show "\<exists>c'. map_of (collections (snd (rss_clean_all_old_articles now pick account s))) k = Some c' \<and>
          kept c c' i"
    by (rule clean_all_handler_kept)
next
  assume a: "abstracts c i = Some a"
    and d: "abstracts (cleanOldArticles now u maxAgeMs c) i \<noteq> Some a"
  with cleanOld_abstracts [of now u maxAgeMs c i]
  have g: "abstracts (cleanOldArticles now u maxAgeMs c) i = None"
    and e: "expired now maxAgeMs c i" by auto
  from g show "abstracts (cleanOldArticles now u maxAgeMs c) i = None" .
  from expired_old [OF a e]
  show "read a" "\<not> favorite a" "now - published a > maxAgeMs" by auto
next
  assume a: "abstracts c i = Some a"
    and d: "abstracts (cleanAllOldArticles now maxAgeMs c) i \<noteq> Some a"
  with cleanAll_fold_abstracts [of now maxAgeMs c "map fst (summaries c)" i]
  have g: "abstracts (cleanAllOldArticles now maxAgeMs c) i = None"
    and e: "expired now maxAgeMs c i"
    by (auto simp: cleanAllOldArticles_def)
  from g show "abstracts (cleanAllOldArticles now maxAgeMs c) i = None" .
  from expired_old [OF a e]
  show "read a" "\<not> favorite a" "now - published a > maxAgeMs" by auto
qed

lemma selectExpire_month: "selectExpire (Some ''1 month'') = Some 2592000000"
  by (simp add: selectExpire_def expire_labels_def expire_days_def)

lemma clean_FG_old:
  "abstracts (cleanOldArticles 3000000000 ''G'' 2592000000 collection_FG) ''c'' = None"
  by (simp add: cleanOldArticles_def getSummary_def deleteArticles_def expired_def
      collection_FG_def summary_G_def summary_F_def item_C_def)

lemma clean_FG_all:
  "abstracts (cleanAllOldArticles 3000000000 2592000000 collection_FG) ''c'' = None"
  by (simp add: cleanAllOldArticles_def cleanOldArticles_def getSummary_def deleteArticles_def
      expired_def collection_FG_def summary_G_def summary_F_def item_A_def item_B_def item_C_def)

text \<open>
  An instance: article a is unread and older than one month, article c is read, not
  favorited and older than one month.
\<close>

theorem retention_safety_witness:
  "abstracts collection_FG ''a'' = Some item_A \<and> \<not> read item_A \<and>
   3000000000 - published item_A > 2592000000 \<and>
   map_of (collections app_FG) ''A'' = Some collection_FG \<and>
   kept collection_FG (cleanOldArticles 3000000000 ''F'' 2592000000 collection_FG) ''a'' \<and>
   kept collection_FG (cleanAllOldArticles 3000000000 2592000000 collection_FG) ''a'' \<and>
   (\<exists>c'. map_of (collections (snd (rss_clean_old_articles 3000000000 (Some ''1 month'')
             \<lparr>feed = ''F'', summary = summary_F\<rparr> app_FG))) ''A'' = Some c' \<and>
          kept collection_FG c' ''a'') \<and>
   (\<exists>c'. map_of (collections (snd (rss_clean_all_old_articles 3000000000 (Some ''1 month'')
             \<lparr>key = ''A''\<rparr> app_FG))) ''A'' = Some c' \<and>
          kept collection_FG c' ''a'') \<and>
   abstracts collection_FG ''c'' = Some item_C \<and>
   abstracts (cleanOldArticles 3000000000 ''G'' 2592000000 collection_FG) ''c'' = None \<and>
   abstracts (cleanAllOldArticles 3000000000 2592000000 collection_FG) ''c'' = None \<and>
   read item_C \<and> \<not> favorite item_C \<and> 3000000000 - published item_C > 2592000000"
proof -
  have a: "abstracts collection_FG ''a'' = Some item_A"
    by (simp add: collection_FG_def)
  have c: "abstracts collection_FG ''c'' = Some item_C"
    by (simp add: collection_FG_def)
  have u: "\<not> read item_A"
    by (simp add: item_A_def)
  have m: "map_of (collections app_FG) ''A'' = Some collection_FG"
    by (simp add: app_FG_def)
  have old: "3000000000 - published item_A > 2592000000"
    by (simp add: item_A_def)
  from retention_safety [OF a, of 3000000000 "''F''" 2592000000 app_FG "''A''"
      "Some ''1 month''" "\<lparr>feed = ''F'', summary = summary_F\<rparr>" "\<lparr>key = ''A''\<rparr>"] u m
  have keep: "kept collection_FG (cleanOldArticles 3000000000 ''F'' 2592000000 collection_FG) ''a''"
    "kept collection_FG (cleanAllOldArticles 3000000000 2592000000 collection_FG) ''a''"
    "\<exists>c'. map_of (collections (snd (rss_clean_old_articles 3000000000 (Some ''1 month'')
             \<lparr>feed = ''F'', summary = summary_F\<rparr> app_FG))) ''A'' = Some c' \<and>
          kept collection_FG c' ''a''"
    "\<exists>c'. map_of (collections (snd (rss_clean_all_old_articles 3000000000 (Some ''1 month'')
             \<lparr>key = ''A''\<rparr> app_FG))) ''A'' = Some c' \<and>
          kept collection_FG c' ''a''"
    by blast+
  from retention_safety [OF c, of 3000000000 "''G''" 2592000000] clean_FG_old clean_FG_all
  have gone: "read item_C \<and> \<not> favorite item_C \<and> 3000000000 - published item_C > 2592000000"
    by simp
  from a c u m old keep gone clean_FG_old clean_FG_all show ?thesis
    by blast
qed

section \<open>Favorites\<close>

lemma fav_inv_empty: "fav_inv empty_collection"
  by (simp add: fav_inv_def empty_collection_def)

lemma addToFavorites_inv:
  "fav_inv c \<Longrightarrow> addToFavorites i c = Inr c' \<Longrightarrow> fav_inv c' \<and> i \<in> set (favorites c')"
  by (auto simp: fav_inv_def addToFavorites_def split: option.splits if_splits)

lemma removeFromFavorites_inv:
  "fav_inv c \<Longrightarrow> removeFromFavorites i c = Inr c' \<Longrightarrow> fav_inv c' \<and> i \<notin> set (favorites c')"
  by (auto simp: fav_inv_def removeFromFavorites_def split: option.splits if_splits)

lemma delFeed_inv: "fav_inv c \<Longrightarrow> fav_inv (delFeed u c)"
  by (auto simp: fav_inv_def delFeed_def split: option.splits)

lemma delFeed_purges:
  "in_catalog c u i \<Longrightarrow>
     i \<notin> set (favorites (delFeed u c)) \<and> abstracts (delFeed u c) i = None \<and>
     stored (delFeed u c) i = None \<and> contents (delFeed u c) i = None"
  by (auto simp: in_catalog_def delFeed_def split: option.splits)

lemma delFeed_favorites:
  "list_all (\<lambda>j. \<not> in_catalog c u j) (favorites (delFeed u c))"
  by (auto simp: list_all_iff dest: delFeed_purges)

lemma fav_inv_no_orphan: "fav_inv c \<Longrightarrow> list_all (\<lambda>j. abstracts c j \<noteq> None) (favorites c)"
  by (auto simp: fav_inv_def list_all_iff)

lemma cleanOld_inv: "fav_inv c \<Longrightarrow> fav_inv (cleanOldArticles now u m c)"
  by (auto simp: fav_inv_def cleanOldArticles_def deleteArticles_def expired_def
      split: option.splits)

lemma cleanAll_fold_inv:
  "fav_inv c \<Longrightarrow> fav_inv (foldl (\<lambda>c' u. cleanOldArticles now u m c') c us)"
  by (induction us arbitrary: c) (simp_all add: cleanOld_inv)

lemma cleanAll_inv: "fav_inv c \<Longrightarrow> fav_inv (cleanAllOldArticles now m c)"
  by (simp add: cleanAllOldArticles_def cleanAll_fold_inv)

lemma app_fav_inv_log [simp]: "app_fav_inv (log es s) = app_fav_inv s"
  by (simp add: app_fav_inv_def)

lemma app_fav_inv_refreshLists [simp]: "app_fav_inv (refreshLists l s) = app_fav_inv s"
  by (simp add: app_fav_inv_def)

lemma app_fav_inv_put: "app_fav_inv s \<Longrightarrow> fav_inv c \<Longrightarrow> app_fav_inv (put_collection k c s)"
  by (simp add: app_fav_inv_def)

lemma app_fav_inv_curr: "app_fav_inv s \<Longrightarrow> currCollection s = Some c \<Longrightarrow> fav_inv c"
  by (auto simp: app_fav_inv_def currCollection_def)

lemma add_handler_inv: "app_fav_inv s \<Longrightarrow> app_fav_inv (snd (rss_add_to_favorites article s))"
  by (auto simp: rss_add_to_favorites_def Let_def split: option.splits sum.splits
      intro!: app_fav_inv_put dest: app_fav_inv_curr addToFavorites_inv)

lemma remove_handler_inv:
  "app_fav_inv s \<Longrightarrow> app_fav_inv (snd (rss_remove_from_favorites item s))"
  by (auto simp: rss_remove_from_favorites_def Let_def split: option.splits sum.splits
      intro!: app_fav_inv_put dest: app_fav_inv_curr removeFromFavorites_inv)

lemma remove_feed_handler_inv: "app_fav_inv s \<Longrightarrow> app_fav_inv (snd (rss_remove_feed fd s))"
  by (auto simp: rss_remove_feed_def Let_def split: option.splits
      intro!: app_fav_inv_put delFeed_inv dest: app_fav_inv_curr)

lemma clean_old_handler_inv:
  "app_fav_inv s \<Longrightarrow> app_fav_inv (snd (rss_clean_old_articles now pick fd s))"
  by (auto simp: rss_clean_old_articles_def Let_def split: option.splits
      intro!: app_fav_inv_put cleanOld_inv dest: app_fav_inv_curr)

lemma clean_all_handler_inv:
  "app_fav_inv s \<Longrightarrow> app_fav_inv (snd (rss_clean_all_old_articles now pick account s))"
  by (auto simp: rss_clean_all_old_articles_def Let_def app_fav_inv_def split: option.splits
      intro!: cleanAll_inv)

text \<open>
  Claim C6.  The favorites invariant (an id is in the FavoritesList exactly when its
  Abstract has the favorite flag) is kept by \<open>addToFavorites\<close>, \<open>removeFromFavorites\<close>,
  \<open>delFeed\<close>, \<open>cleanOldArticles\<close> and \<open>cleanAllOldArticles\<close>, and in every registered
  Collection by the handlers that call them.  After \<open>delFeed\<close> no favorite refers to
  an article of the deleted feed, and every favorite still has its Abstract.
\<close>

theorem favorites_invariant:
  "(fav_inv c \<longrightarrow>
      (case addToFavorites i c of
         Inl e \<Rightarrow> e = NotFound
       | Inr c' \<Rightarrow> fav_inv c' \<and> i \<in> set (favorites c')) \<and>
      (case removeFromFavorites i c of
         Inl e \<Rightarrow> e = NotFound
       | Inr c' \<Rightarrow> fav_inv c' \<and> i \<notin> set (favorites c')) \<and>
      fav_inv (delFeed u c) \<and>
      list_all (\<lambda>j. \<not> in_catalog c u j) (favorites (delFeed u c)) \<and>
      list_all (\<lambda>j. abstracts (delFeed u c) j \<noteq> None) (favorites (delFeed u c)) \<and>
      fav_inv (cleanOldArticles now u maxAgeMs c) \<and>
      fav_inv (cleanAllOldArticles now maxAgeMs c)) \<and>
   (app_fav_inv s \<longrightarrow>
      app_fav_inv (snd (rss_add_to_favorites article s)) \<and>
      app_fav_inv (snd (rss_remove_from_favorites item s)) \<and>
      app_fav_inv (snd (rss_remove_feed fd s)) \<and>
      app_fav_inv (snd (rss_clean_old_articles now pick fd s)) \<and>
      app_fav_inv (snd (rss_clean_all_old_articles now pick account s)))"
proof (intro conjI impI)
  assume inv: "fav_inv c"
  show "case addToFavorites i c of
         Inl e \<Rightarrow> e = NotFound
       | Inr c' \<Rightarrow> fav_inv c' \<and> i \<in> set (favorites c')"
  proof (cases "addToFavorites i c")
    case (Inl e)
    then show ?thesis by (simp add: addToFavorites_def split: option.splits)
  next
    case (Inr c')
    with addToFavorites_inv [OF inv Inr] show ?thesis by simp
  qed
  show "case removeFromFavorites i c of
         Inl e \<Rightarrow> e = NotFound
       | Inr c' \<Rightarrow> fav_inv c' \<and> i \<notin> set (favorites c')"
  proof (cases "removeFromFavorites i c")
    case (Inl e)
    then show ?thesis by (simp add: removeFromFavorites_def split: option.splits)
  next
    case (Inr c')
    with removeFromFavorites_inv [OF inv Inr] show ?thesis by simp
  qed
  from inv show d: "fav_inv (delFeed u c)" by (rule delFeed_inv)
  show "list_all (\<lambda>j. \<not> in_catalog c u j) (favorites (delFeed u c))"
    by (rule delFeed_favorites)
  from d show "list_all (\<lambda>j. abstracts (delFeed u c) j \<noteq> None) (favorites (delFeed u c))"
    by (rule fav_inv_no_orphan)
  from inv show "fav_inv (cleanOldArticles now u maxAgeMs c)" by (rule cleanOld_inv)
  from inv show "fav_inv (cleanAllOldArticles now maxAgeMs c)" by (rule cleanAll_inv)
next
  assume inv: "app_fav_inv s"
  from inv show "app_fav_inv (snd (rss_add_to_favorites article s))"
    by (rule add_handler_inv)
  from inv show "app_fav_inv (snd (rss_remove_from_favorites item s))"
    by (rule remove_handler_inv)
  from inv show "app_fav_inv (snd (rss_remove_feed fd s))"
    by (rule remove_feed_handler_inv)
  from inv show "app_fav_inv (snd (rss_clean_old_articles now pick fd s))"
    by (rule clean_old_handler_inv)
  from inv show "app_fav_inv (snd (rss_clean_all_old_articles now pick account s))"
    by (rule clean_all_handler_inv)
qed

lemma fav_inv_F: "fav_inv collection_F"
  by (simp add: fav_inv_def collection_F_def item_A_def item_B_def)

lemma fav_inv_F_starred: "fav_inv collection_F_starred"
  by (auto simp: fav_inv_def collection_F_starred_def collection_F_def item_A_def item_B_def)

lemma app_fav_inv_two: "app_fav_inv app_two"
  by (simp add: app_fav_inv_def app_two_def fav_inv_F fav_inv_empty)

lemma add_b_F: "addToFavorites ''b'' collection_F = Inr collection_F_starred"
  by (simp add: addToFavorites_def collection_F_starred_def collection_F_def)

text \<open>
  An instance, the scenario of the spec: article b of feed F is favorited, then feed F
  is deleted; no favorite is left.
\<close>

theorem favorites_invariant_witness:
  "fav_inv collection_F \<and> app_fav_inv app_two \<and>
   addToFavorites ''b'' collection_F = Inr collection_F_starred \<and>
   fav_inv collection_F_starred \<and> ''b'' \<in> set (favorites collection_F_starred) \<and>
   getFavorites collection_F_starred = [item_B\<lparr>favorite := True\<rparr>] \<and>
   fav_inv (delFeed ''F'' collection_F_starred) \<and>
   favorites (delFeed ''F'' collection_F_starred) = [] \<and>
   getFavorites (delFeed ''F'' collection_F_starred) = [] \<and>
   app_fav_inv (snd (rss_add_to_favorites \<lparr>abstract = item_B\<rparr> app_two)) \<and>
   app_fav_inv (snd (rss_remove_feed \<lparr>feed = ''F'', summary = summary_F\<rparr> app_two))"
proof -
  have f: "favorites (delFeed ''F'' collection_F_starred) = []"
    by (simp add: delFeed_def getSummary_def collection_F_starred_def collection_F_def
        summary_F_def)
  have g: "getFavorites collection_F_starred = [item_B\<lparr>favorite := True\<rparr>]"
    by (simp add: getFavorites_def collection_F_starred_def collection_F_def)
  from favorites_invariant [of collection_F "''b''" "''F''" 0 0 app_two
      "\<lparr>abstract = item_B\<rparr>" "\<lparr>item_abstract = item_B\<rparr>" "\<lparr>feed = ''F'', summary = summary_F\<rparr>"]
    favorites_invariant [of collection_F_starred "''b''" "''F''"]
    fav_inv_F fav_inv_F_starred app_fav_inv_two add_b_F f g
  show ?thesis
    by (simp add: getFavorites_def)
qed

section \<open>The unread feed\<close>

lemma set_all_abstracts:
  "set (all_abstracts c) =
     {a. \<exists>u sm i. (u, sm) \<in> set (summaries c) \<and> i \<in> set (catalog sm) \<and>
                    abstracts c i = Some a}"
  by (auto simp: all_abstracts_def set_map_filter_conv)

lemma unread_set:
  "set (getArticles c ''<unread>'') =
     {a. \<exists>u sm i. (u, sm) \<in> set (summaries c) \<and> i \<in> set (catalog sm) \<and>
                    abstracts c i = Some a \<and> \<not> read a}"
  by (auto simp: getArticles_def set_all_abstracts)

lemma unread_sorted:
  "sorted_wrt (\<lambda>a b. published a \<ge> published b) (getArticles c ''<unread>'')"
proof -
  have "sorted (map (\<lambda>a. - published a) (getArticles c ''<unread>''))"
    by (simp add: getArticles_def)
  then show ?thesis
    by (simp add: sorted_map)
qed

lemma unread_length:
  "length (getArticles c ''<unread>'') =
     length (filter (\<lambda>i. case abstracts c i of None \<Rightarrow> False | Some a \<Rightarrow> \<not> read a)
              (concat (map (\<lambda>(u, sm). catalog sm) (summaries c))))"
  by (simp add: getArticles_def all_abstracts_def length_filter_map_filter)

lemma unread_scenario:
  assumes "currCollection s = Some c" and "summaries c = [(f, sm)]"
    and "catalog sm = [id' A, id' B]"
    and "abstracts c (id' A) = Some A" and "abstracts c (id' B) = Some B"
    and "id' A \<noteq> id' B" and "\<not> read A" and "\<not> read B"
  shows "\<exists>c'. currCollection (snd (rss_mark_read ok \<lparr>abstract = A\<rparr> s)) = Some c' \<and>
           getArticles c' ''<unread>'' = [B] \<and>
           next_unread (snd (rss_mark_read ok \<lparr>abstract = A\<rparr> s)) = Inr (Some B)"
  using assms
  by (auto simp: rss_mark_read_def mark_one_def Let_def next_unread_def getArticles_def
      all_abstracts_def updateAbstract_def commit_def)

text \<open>
  Claim C5.  \<open>getArticles c ''<unread>''\<close> holds exactly the Abstracts with
  \<open>read = False\<close> that the catalog of some feed of the Collection lists, one entry for
  each such catalog listing, ordered by descending publish date.  In particular, when
  the one feed of the current Collection lists two unread articles A and B and A is
  marked read (\<open>rss_mark_read\<close>), \<open>getArticles ''<unread>''\<close> is \<open>[B]\<close>, and B is what the
  \<open>next\<close> button opens.
\<close>

theorem unread_articles:
  "set (getArticles c ''<unread>'') =
     {a. \<exists>u sm i. (u, sm) \<in> set (summaries c) \<and> i \<in> set (catalog sm) \<and>
                    abstracts c i = Some a \<and> \<not> read a} \<and>
   length (getArticles c ''<unread>'') =
     length (filter (\<lambda>i. case abstracts c i of None \<Rightarrow> False | Some a \<Rightarrow> \<not> read a)
              (concat (map (\<lambda>(u, sm). catalog sm) (summaries c)))) \<and>
   sorted_wrt (\<lambda>a b. published a \<ge> published b) (getArticles c ''<unread>'') \<and>
   (currCollection s = Some c \<and> summaries c = [(f, sm)] \<and> catalog sm = [id' A, id' B] \<and>
    abstracts c (id' A) = Some A \<and> abstracts c (id' B) = Some B \<and>
    id' A \<noteq> id' B \<and> \<not> read A \<and> \<not> read B \<longrightarrow>
      (\<exists>c'. currCollection (snd (rss_mark_read ok \<lparr>abstract = A\<rparr> s)) = Some c' \<and>
            getArticles c' ''<unread>'' = [B] \<and>
            next_unread (snd (rss_mark_read ok \<lparr>abstract = A\<rparr> s)) = Inr (Some B)))"
  using unread_set [of c] unread_length [of c] unread_sorted [of c]
    unread_scenario [of s c f sm A B ok]
  by blast

lemma unread_F: "getArticles collection_F ''<unread>'' = [item_B, item_A]"
  by (simp add: getArticles_def all_abstracts_def collection_F_def summary_F_def
      item_A_def item_B_def)

text \<open>An instance: feed F with the unread articles a and b, of which a is marked read.\<close>

theorem unread_articles_witness:
  "currCollection app_two = Some collection_F \<and>
   summaries collection_F = [(''F'', summary_F)] \<and>
   catalog summary_F = [id' item_A, id' item_B] \<and>
   abstracts collection_F (id' item_A) = Some item_A \<and>
   abstracts collection_F (id' item_B) = Some item_B \<and>
   id' item_A \<noteq> id' item_B \<and> \<not> read item_A \<and> \<not> read item_B \<and>
   getArticles collection_F ''<unread>'' = [item_B, item_A] \<and>
   (\<exists>c'. currCollection (snd (rss_mark_read True \<lparr>abstract = item_A\<rparr> app_two)) = Some c' \<and>
         getArticles c' ''<unread>'' = [item_B] \<and>
         next_unread (snd (rss_mark_read True \<lparr>abstract = item_A\<rparr> app_two)) = Inr (Some item_B))"
proof -
  have h: "currCollection app_two = Some collection_F"
    "summaries collection_F = [(''F'', summary_F)]"
    "catalog summary_F = [id' item_A, id' item_B]"
    "abstracts collection_F (id' item_A) = Some item_A"
    "abstracts collection_F (id' item_B) = Some item_B"
    "id' item_A \<noteq> id' item_B" "\<not> read item_A" "\<not> read item_B"
    by (simp_all add: app_two_def currCollection_def curr_key_def collection_F_def
        summary_F_def item_A_def item_B_def)
  from unread_articles [of collection_F app_two "''F''" summary_F item_A item_B True] h
  have "\<exists>c'. currCollection (snd (rss_mark_read True \<lparr>abstract = item_A\<rparr> app_two)) = Some c' \<and>
         getArticles c' ''<unread>'' = [item_B] \<and>
         next_unread (snd (rss_mark_read True \<lparr>abstract = item_A\<rparr> app_two)) = Inr (Some item_B)"
    by blast
  with h unread_F show ?thesis by blast
qed

section \<open>Marking read\<close>

lemma mark_each_fold:
  "currCollection s = Some c \<Longrightarrow>
     fst (mark_each as s) = None \<and>
     curr_key (snd (mark_each as s)) = curr_key s \<and>
     currCollection (snd (mark_each as s)) = Some (mark_all as c) \<and>
     trace (snd (mark_each as s)) =
       trace s @ map (\<lambda>a. Call (curr_key s) (UpdateAbstract (id' a))) as"
proof (induction as arbitrary: s c)
  case Nil
  then show ?case by (simp add: mark_all_def)
next
  case (Cons a as)
  let ?c1 = "updateAbstract (id' a) (a\<lparr>read := True\<rparr>) c"
  let ?s1 = "log [Call (curr_key s) (UpdateAbstract (id' a))] (put_collection (curr_key s) ?c1 s)"
  have cur: "currCollection ?s1 = Some ?c1" by simp
  have key: "curr_key ?s1 = curr_key s" by simp
  have step: "mark_each (a # as) s = mark_each as ?s1"
    using Cons.prems by simp
  from Cons.IH [OF cur] show ?case
    unfolding step key by (simp add: mark_all_def)
qed

lemma updateAbstract_apply:
  "abstracts c i = Some old \<Longrightarrow>
     abstracts (updateAbstract i n c) =
       (abstracts c)(i \<mapsto> old\<lparr>read := read n, favorite := favorite n\<rparr>) \<and>
     pending (updateAbstract i n c) = insert i (pending c) \<and>
     stored (updateAbstract i n c) = stored c \<and>
     contents (updateAbstract i n c) = contents c \<and>
     summaries (updateAbstract i n c) = summaries c \<and>
     favorites (updateAbstract i n c) = favorites c"
  by (simp add: updateAbstract_def)

lemma mark_all_abstracts:
  "(\<forall>a \<in> set as. \<exists>old. abstracts c (id' a) = Some old \<and> favorite old = favorite a) \<Longrightarrow>
     abstracts (mark_all as c) =
       (\<lambda>j. if j \<in> id' ` set as then map_option (\<lambda>old. old\<lparr>read := True\<rparr>) (abstracts c j)
            else abstracts c j) \<and>
     pending (mark_all as c) = pending c \<union> id' ` set as"
proof (induction as arbitrary: c)
  case Nil
  then show ?case by (simp add: mark_all_def)
next
  case (Cons x xs)
  from Cons.prems obtain old
    where old: "abstracts c (id' x) = Some old" "favorite old = favorite x"
    by auto
  let ?c1 = "updateAbstract (id' x) (x\<lparr>read := True\<rparr>) c"
  have fx: "old\<lparr>read := True, favorite := favorite x\<rparr> = old\<lparr>read := True\<rparr>"
    using old(2) by simp
  have a1: "abstracts ?c1 = (abstracts c)(id' x \<mapsto> old\<lparr>read := True\<rparr>)"
    and p1: "pending ?c1 = insert (id' x) (pending c)"
    using updateAbstract_apply [OF old(1), of "x\<lparr>read := True\<rparr>"] fx by simp_all
  have H1: "\<forall>a \<in> set xs. \<exists>o'. abstracts ?c1 (id' a) = Some o' \<and> favorite o' = favorite a"
    using Cons.prems old by (auto simp: a1)
  have m: "mark_all (x # xs) c = mark_all xs ?c1" by (simp add: mark_all_def)
  from Cons.IH [OF H1] show ?case
    unfolding m by (auto simp: a1 p1 old fun_eq_iff)
qed

lemma getArticles_wf:
  "wf_ids c \<Longrightarrow> a \<in> set (getArticles c f) \<Longrightarrow> abstracts c (id' a) = Some a"
  by (auto simp: getArticles_def wf_ids_def all_abstracts_def set_map_filter_conv
      split: if_splits option.splits)

lemma target_articles_wf:
  "wf_ids c \<Longrightarrow> a \<in> set (target_articles fd s c) \<Longrightarrow> abstracts c (id' a) = Some a"
  by (auto simp: target_articles_def dest: getArticles_wf split: option.splits)

lemma filter_commit_updates [simp]:
  "filter is_commit (map (\<lambda>a. Call k (UpdateAbstract (id' a))) as) = []"
  by (induction as) (simp_all add: is_commit_def)

lemma filter_commit_refresh [simp]: "filter is_commit (refresh_calls l) = []"
  by (simp add: refresh_calls_def is_commit_def)

lemma mark_all_read_batch:
  assumes cur: "currCollection s = Some c" and wf: "wf_ids c"
  shows "fst (rss_mark_all_read ok fd s) = None \<and>
     new_events s (snd (rss_mark_all_read ok fd s)) =
       map (\<lambda>a. Call (curr_key s) (UpdateAbstract (id' a))) (target_articles fd s c) @
       refresh_calls ALL_LISTS @ [Call (curr_key s) Commit] \<and>
     filter is_commit (new_events s (snd (rss_mark_all_read ok fd s))) =
       [Call (curr_key s) Commit] \<and>
     (\<exists>c'. currCollection (snd (rss_mark_all_read ok fd s)) = Some c' \<and>
        list_all (\<lambda>a. abstracts c' (id' a) = Some (a\<lparr>read := True\<rparr>) \<and>
                     (if ok then stored c' (id' a) = Some (a\<lparr>read := True\<rparr>) \<and>
                                 id' a \<notin> pending c'
                      else id' a \<in> pending c'))
          (target_articles fd s c))"
proof -
  let ?as = "target_articles fd s c"
  from mark_each_fold [OF cur, of ?as]
  obtain s1 where ms: "mark_each ?as s = (None, s1)" and k: "curr_key s1 = curr_key s"
    and c1: "currCollection s1 = Some (mark_all ?as c)"
    and t1: "trace s1 = trace s @ map (\<lambda>a. Call (curr_key s) (UpdateAbstract (id' a))) ?as"
    by (cases "mark_each ?as s") auto
  have H: "\<forall>a \<in> set ?as. \<exists>old. abstracts c (id' a) = Some old \<and> favorite old = favorite a"
    using target_articles_wf [OF wf] by auto
  from mark_all_abstracts [OF H]
  have ab: "abstracts (mark_all ?as c) =
       (\<lambda>j. if j \<in> id' ` set ?as then map_option (\<lambda>old. old\<lparr>read := True\<rparr>) (abstracts c j)
            else abstracts c j)"
    and pe: "pending (mark_all ?as c) = pending c \<union> id' ` set ?as" by simp_all
  have arts: "(case fd of
              Some f \<Rightarrow> (case currCollection s of
                           None \<Rightarrow> Inl TypeError
                         | Some c \<Rightarrow> Inr (getArticles c (feed f)))
            | None \<Rightarrow> currArticles s) = Inr ?as"
    using cur by (simp add: target_articles_def currArticles_def split: option.splits)
  have res: "rss_mark_all_read ok fd s =
      (None, log [Call (curr_key s) Commit]
                (put_collection (curr_key s) (snd (commit ok (mark_all ?as c)))
                   (refreshLists ALL_LISTS s1)))"
    unfolding rss_mark_all_read_def arts by (simp add: Let_def ms c1 k)
  have ev: "new_events s (snd (rss_mark_all_read ok fd s)) =
       map (\<lambda>a. Call (curr_key s) (UpdateAbstract (id' a))) ?as @
       refresh_calls ALL_LISTS @ [Call (curr_key s) Commit]"
    unfolding res by (simp add: new_events_def t1)
  have one: "filter is_commit (new_events s (snd (rss_mark_all_read ok fd s))) =
       [Call (curr_key s) Commit]"
    unfolding ev by (simp add: is_commit_def)
  have fin: "\<exists>c'. currCollection (snd (rss_mark_all_read ok fd s)) = Some c' \<and>
        list_all (\<lambda>a. abstracts c' (id' a) = Some (a\<lparr>read := True\<rparr>) \<and>
                     (if ok then stored c' (id' a) = Some (a\<lparr>read := True\<rparr>) \<and>
                                 id' a \<notin> pending c'
                      else id' a \<in> pending c'))
          ?as"
    unfolding res
    using target_articles_wf [OF wf, of _ fd s]
    by (auto simp: k ab pe commit_def list_all_iff)
  from res ev one fin show ?thesis by simp
qed

lemma mark_read_single:
  assumes cur: "currCollection s = Some c" and old: "abstracts c (id' A) = Some old"
  shows "fst (rss_mark_read ok \<lparr>abstract = A\<rparr> s) = None \<and>
     new_events s (snd (rss_mark_read ok \<lparr>abstract = A\<rparr> s)) =
       refresh_calls ALL_LISTS @
       [Call (curr_key s) (UpdateAbstract (id' A)), Call (curr_key s) Commit] \<and>
     (\<exists>c'. currCollection (snd (rss_mark_read ok \<lparr>abstract = A\<rparr> s)) = Some c' \<and>
        abstracts c' (id' A) = Some (old\<lparr>read := True, favorite := favorite A\<rparr>) \<and>
        (if ok then stored c' (id' A) = abstracts c' (id' A) \<and> pending c' = {}
         else id' A \<in> pending c' \<and> stored c' = stored c))"
  using assms
  by (simp add: rss_mark_read_def mark_one_def Let_def new_events_def updateAbstract_def
      commit_def)

lemma update_commit_flushes:
  assumes old: "abstracts c i = Some old"
  shows "abstracts (updateAbstract i n c) i = Some (old\<lparr>read := read n, favorite := favorite n\<rparr>) \<and>
     i \<in> pending (updateAbstract i n c) \<and>
     stored (snd (commit True (updateAbstract i n c))) i =
       Some (old\<lparr>read := read n, favorite := favorite n\<rparr>) \<and>
     pending (snd (commit True (updateAbstract i n c))) = {}"
  using old by (simp add: updateAbstract_def commit_def)

text \<open>
  Claim C4.  For an article with an in-memory Abstract, \<open>updateAbstract\<close> applies the
  read and favorite values to that Abstract and marks it pending, and the commit of
  the handle it returns writes the changed Abstract to the store and clears the
  pending set; \<open>rss_mark_read\<close> does exactly that, one \<open>updateAbstract\<close> followed by one
  commit.  \<open>rss_mark_all_read\<close> calls \<open>updateAbstract\<close> once for every Abstract of the
  target feed, in order, with \<open>read = True\<close>, and then commits the Collection once,
  after the last update; every one of those Abstracts is read afterwards, and
  persisted as read when the store works.
\<close>

theorem update_then_commit:
  "currCollection s = Some c \<Longrightarrow>
     (abstracts c (id' A) = Some old \<longrightarrow>
        abstracts (updateAbstract (id' A) n c) (id' A) =
          Some (old\<lparr>read := read n, favorite := favorite n\<rparr>) \<and>
        id' A \<in> pending (updateAbstract (id' A) n c) \<and>
        stored (snd (commit True (updateAbstract (id' A) n c))) (id' A) =
          Some (old\<lparr>read := read n, favorite := favorite n\<rparr>) \<and>
        pending (snd (commit True (updateAbstract (id' A) n c))) = {} \<and>
        fst (rss_mark_read ok \<lparr>abstract = A\<rparr> s) = None \<and>
        new_events s (snd (rss_mark_read ok \<lparr>abstract = A\<rparr> s)) =
          refresh_calls ALL_LISTS @
          [Call (curr_key s) (UpdateAbstract (id' A)), Call (curr_key s) Commit] \<and>
        (\<exists>c'. currCollection (snd (rss_mark_read ok \<lparr>abstract = A\<rparr> s)) = Some c' \<and>
           abstracts c' (id' A) = Some (old\<lparr>read := True, favorite := favorite A\<rparr>) \<and>
           (if ok then stored c' (id' A) = abstracts c' (id' A) \<and> pending c' = {}
            else id' A \<in> pending c' \<and> stored c' = stored c))) \<and>
     (wf_ids c \<longrightarrow>
        fst (rss_mark_all_read ok fd s) = None \<and>
        new_events s (snd (rss_mark_all_read ok fd s)) =
          map (\<lambda>a. Call (curr_key s) (UpdateAbstract (id' a))) (target_articles fd s c) @
          refresh_calls ALL_LISTS @ [Call (curr_key s) Commit] \<and>
        filter is_commit (new_events s (snd (rss_mark_all_read ok fd s))) =
          [Call (curr_key s) Commit] \<and>
        (\<exists>c'. currCollection (snd (rss_mark_all_read ok fd s)) = Some c' \<and>
           list_all (\<lambda>a. abstracts c' (id' a) = Some (a\<lparr>read := True\<rparr>) \<and>
                        (if ok then stored c' (id' a) = Some (a\<lparr>read := True\<rparr>) \<and>
                                    id' a \<notin> pending c'
                         else id' a \<in> pending c'))
             (target_articles fd s c)))"
proof (intro conjI impI)
  assume cur: "currCollection s = Some c" and old: "abstracts c (id' A) = Some old"
  from update_commit_flushes [OF old, of n]
  show "abstracts (updateAbstract (id' A) n c) (id' A) =
          Some (old\<lparr>read := read n, favorite := favorite n\<rparr>)"
    and "id' A \<in> pending (updateAbstract (id' A) n c)"
    and "stored (snd (commit True (updateAbstract (id' A) n c))) (id' A) =
          Some (old\<lparr>read := read n, favorite := favorite n\<rparr>)"
    and "pending (snd (commit True (updateAbstract (id' A) n c))) = {}"
    by blast+
  from mark_read_single [OF cur old, of ok]
  show "fst (rss_mark_read ok \<lparr>abstract = A\<rparr> s) = None"
    and "new_events s (snd (rss_mark_read ok \<lparr>abstract = A\<rparr> s)) =
          refresh_calls ALL_LISTS @
          [Call (curr_key s) (UpdateAbstract (id' A)), Call (curr_key s) Commit]"
    and "\<exists>c'. currCollection (snd (rss_mark_read ok \<lparr>abstract = A\<rparr> s)) = Some c' \<and>
           abstracts c' (id' A) = Some (old\<lparr>read := True, favorite := favorite A\<rparr>) \<and>
           (if ok then stored c' (id' A) = abstracts c' (id' A) \<and> pending c' = {}
            else id' A \<in> pending c' \<and> stored c' = stored c)"
    by blast+
next
  assume cur: "currCollection s = Some c" and wf: "wf_ids c"
  from mark_all_read_batch [OF cur wf, of ok fd]
  show "fst (rss_mark_all_read ok fd s) = None"
    and "new_events s (snd (rss_mark_all_read ok fd s)) =
          map (\<lambda>a. Call (curr_key s) (UpdateAbstract (id' a))) (target_articles fd s c) @
          refresh_calls ALL_LISTS @ [Call (curr_key s) Commit]"
    and "filter is_commit (new_events s (snd (rss_mark_all_read ok fd s))) =
          [Call (curr_key s) Commit]"
    and "\<exists>c'. currCollection (snd (rss_mark_all_read ok fd s)) = Some c' \<and>
           list_all (\<lambda>a. abstracts c' (id' a) = Some (a\<lparr>read := True\<rparr>) \<and>
                        (if ok then stored c' (id' a) = Some (a\<lparr>read := True\<rparr>) \<and>
                                    id' a \<notin> pending c'
                         else id' a \<in> pending c'))
             (target_articles fd s c)"
    by blast+
qed

lemma wf_ids_F: "wf_ids collection_F"
  by (simp add: wf_ids_def collection_F_def item_A_def item_B_def)

lemma target_F:
  "target_articles (Some \<lparr>feed = ''F'', summary = summary_F\<rparr>) app_two collection_F =
     [item_A, item_B]"
  by (simp add: target_articles_def getArticles_def getSummary_def collection_F_def
      summary_F_def)

text \<open>
  An instance: in feed F with the unread articles a and b, a is marked read, and the
  whole feed is marked read.
\<close>

theorem update_then_commit_witness:
  "currCollection app_two = Some collection_F \<and>
   abstracts collection_F (id' item_A) = Some item_A \<and>
   wf_ids collection_F \<and>
   new_events app_two (snd (rss_mark_read True \<lparr>abstract = item_A\<rparr> app_two)) =
     refresh_calls ALL_LISTS @ [Call ''A'' (UpdateAbstract ''a''), Call ''A'' Commit] \<and>
   (\<exists>c'. currCollection (snd (rss_mark_read True \<lparr>abstract = item_A\<rparr> app_two)) = Some c' \<and>
      abstracts c' ''a'' = Some (item_A\<lparr>read := True\<rparr>) \<and>
      stored c' ''a'' = Some (item_A\<lparr>read := True\<rparr>) \<and> pending c' = {}) \<and>
   new_events app_two
     (snd (rss_mark_all_read True (Some \<lparr>feed = ''F'', summary = summary_F\<rparr>) app_two)) =
     [Call ''A'' (UpdateAbstract ''a''), Call ''A'' (UpdateAbstract ''b'')] @
     refresh_calls ALL_LISTS @ [Call ''A'' Commit] \<and>
   (\<exists>c'. currCollection
           (snd (rss_mark_all_read True (Some \<lparr>feed = ''F'', summary = summary_F\<rparr>) app_two)) =
         Some c' \<and>
      abstracts c' ''a'' = Some (item_A\<lparr>read := True\<rparr>) \<and>
      abstracts c' ''b'' = Some (item_B\<lparr>read := True\<rparr>) \<and>
      stored c' ''a'' = Some (item_A\<lparr>read := True\<rparr>) \<and>
      stored c' ''b'' = Some (item_B\<lparr>read := True\<rparr>))"
proof -
  let ?F = "Some \<lparr>feed = ''F'', summary = summary_F\<rparr>"
  have cur: "currCollection app_two = Some collection_F"
    by (simp add: app_two_def currCollection_def curr_key_def)
  have k: "curr_key app_two = ''A''"
    by (simp add: app_two_def curr_key_def)
  have ia: "id' item_A = ''a''" and ib: "id' item_B = ''b''"
    by (simp_all add: item_A_def item_B_def)
  have old: "abstracts collection_F (id' item_A) = Some item_A"
    by (simp add: collection_F_def item_A_def)
  note T = update_then_commit [OF cur, of item_A item_A item_A True ?F]
  from T old
  have e1: "new_events app_two (snd (rss_mark_read True \<lparr>abstract = item_A\<rparr> app_two)) =
          refresh_calls ALL_LISTS @
          [Call (curr_key app_two) (UpdateAbstract (id' item_A)), Call (curr_key app_two) Commit]"
    by blast
  from T old
  have s1: "\<exists>c'. currCollection (snd (rss_mark_read True \<lparr>abstract = item_A\<rparr> app_two)) = Some c' \<and>
           abstracts c' (id' item_A) = Some (item_A\<lparr>read := True, favorite := favorite item_A\<rparr>) \<and>
           (if True then stored c' (id' item_A) = abstracts c' (id' item_A) \<and> pending c' = {}
            else id' item_A \<in> pending c' \<and> stored c' = stored collection_F)"
    by blast
  from T wf_ids_F
  have e2: "new_events app_two (snd (rss_mark_all_read True ?F app_two)) =
          map (\<lambda>a. Call (curr_key app_two) (UpdateAbstract (id' a)))
            (target_articles ?F app_two collection_F) @
          refresh_calls ALL_LISTS @ [Call (curr_key app_two) Commit]"
    by blast
  from T wf_ids_F
  have s2: "\<exists>c'. currCollection (snd (rss_mark_all_read True ?F app_two)) = Some c' \<and>
           list_all (\<lambda>a. abstracts c' (id' a) = Some (a\<lparr>read := True\<rparr>) \<and>
                        (if True then stored c' (id' a) = Some (a\<lparr>read := True\<rparr>) \<and>
                                    id' a \<notin> pending c'
                         else id' a \<in> pending c'))
             (target_articles ?F app_two collection_F)"
    by blast
  from e1 have e1': "new_events app_two (snd (rss_mark_read True \<lparr>abstract = item_A\<rparr> app_two)) =
     refresh_calls ALL_LISTS @ [Call ''A'' (UpdateAbstract ''a''), Call ''A'' Commit]"
    by (simp add: k ia)
  from s1 have s1': "\<exists>c'. currCollection (snd (rss_mark_read True \<lparr>abstract = item_A\<rparr> app_two)) = Some c' \<and>
      abstracts c' ''a'' = Some (item_A\<lparr>read := True\<rparr>) \<and>
      stored c' ''a'' = Some (item_A\<lparr>read := True\<rparr>) \<and> pending c' = {}"
    by (auto simp: ia)
  from e2 have e2': "new_events app_two (snd (rss_mark_all_read True ?F app_two)) =
     [Call ''A'' (UpdateAbstract ''a''), Call ''A'' (UpdateAbstract ''b'')] @
     refresh_calls ALL_LISTS @ [Call ''A'' Commit]"
    by (simp add: k ia ib target_F)
  from s2 have s2': "\<exists>c'. currCollection (snd (rss_mark_all_read True ?F app_two)) = Some c' \<and>
      abstracts c' ''a'' = Some (item_A\<lparr>read := True\<rparr>) \<and>
      abstracts c' ''b'' = Some (item_B\<lparr>read := True\<rparr>) \<and>
      stored c' ''a'' = Some (item_A\<lparr>read := True\<rparr>) \<and>
      stored c' ''b'' = Some (item_B\<lparr>read := True\<rparr>)"
    by (auto simp: target_F ia ib)
  from cur old wf_ids_F e1' s1' e2' s2' show ?thesis
    by blast
qed

end
